theory Spec2Isabelle
  imports Main "HOL-Library.Word"
begin

section \<open>C strings, characters and formatted output\<close>

text \<open>
  A C string is modelled by its content: the bytes before the terminating NUL.
  A buffer filled by \<^verbatim>\<open>fgets\<close> may hold NUL bytes read from the file; the C
  string the program then sees in it is \<open>cstr\<close> of the bytes read.
\<close>

definition NUL :: char where
  "NUL = CHR 0x00"

definition LF :: char where
  "LF = CHR 0x0A"

definition cstr :: "string \<Rightarrow> string" where
  "cstr bytes = takeWhile (\<lambda>c. c \<noteq> NUL) bytes"

text \<open>\<^verbatim>\<open>isspace\<close> of \<^verbatim>\<open><ctype.h>\<close> in the "C" locale: space, \<^verbatim>\<open>\t \n \v \f \r\<close>.\<close>

definition isspace :: "char \<Rightarrow> bool" where
  "isspace c \<longleftrightarrow> c = CHR 0x20 \<or> c = CHR 0x09 \<or> c = CHR 0x0A \<or> c = CHR 0x0B
     \<or> c = CHR 0x0C \<or> c = CHR 0x0D"

text \<open>\<^verbatim>\<open>strncmp(a, b, n) == 0\<close> on string contents.\<close>

definition strncmp_eq :: "string \<Rightarrow> string \<Rightarrow> nat \<Rightarrow> bool" where
  "strncmp_eq a b n \<longleftrightarrow> take n a = take n b"

text \<open>\<^verbatim>\<open>s[i]\<close> for \<open>i\<close> up to the length of the string: at the length it is the terminator.\<close>

definition char_at :: "string \<Rightarrow> nat \<Rightarrow> char" where
  "char_at s i = (if i < length s then s ! i else NUL)"

text \<open>The \<^verbatim>\<open>%d\<close> conversion of \<^verbatim>\<open>snprintf\<close>.\<close>

definition digit_char :: "nat \<Rightarrow> char" where
  "digit_char d = ''0123456789'' ! d"

fun dec_nat :: "nat \<Rightarrow> string" where
  "dec_nat n = (if n < 10 then [digit_char n] else dec_nat (n div 10) @ [digit_char (n mod 10)])"

declare dec_nat.simps [simp del]

definition dec_int :: "int \<Rightarrow> string" where
  "dec_int i = (if i < 0 then CHR ''-'' # dec_nat (nat (- i)) else dec_nat (nat i))"

section \<open>Files, streams and the faults of the C library\<close>

text \<open>
  The world holds the regular files (path to bytes) and the number of \<^verbatim>\<open>FILE\<close>
  streams and descriptors the process has open. Directories are not modelled; whether
  \<^verbatim>\<open>neo4j_mkdir_p\<close> succeeds is an input.
\<close>

record world =
  files :: "string \<rightharpoonup> string"
  open_files :: nat

text \<open>What is not a value returned by the C function: undefined behaviour and abort.\<close>

datatype fault = Double_fclose | Buffer_overflow | Assertion_failed

datatype fopen_result = Opened string | No_entry | Open_failed

text \<open>
  \<^verbatim>\<open>fopen(file, "r")\<close>: \<open>fails\<close> is a failure with an \<^verbatim>\<open>errno\<close> other than
  \<^verbatim>\<open>ENOENT\<close> (permissions, I/O); a missing file is \<^verbatim>\<open>ENOENT\<close>.
\<close>

definition fopen_r :: "bool \<Rightarrow> world \<Rightarrow> string \<Rightarrow> fopen_result" where
  "fopen_r fails w file =
     (if fails then Open_failed
      else case files w file of None \<Rightarrow> No_entry | Some bytes \<Rightarrow> Opened bytes)"

definition unlink :: "world \<Rightarrow> string \<Rightarrow> world" where
  "unlink w path = w\<lparr>files := (files w)(path := None)\<rparr>"

definition NEO4J_MAX_HOST_LENGTH :: nat where
  "NEO4J_MAX_HOST_LENGTH = 512"

definition NEO4J_MAX_FINGERPRINT_LENGTH :: nat where
  "NEO4J_MAX_FINGERPRINT_LENGTH = 60"

definition NEO4J_MAX_KNOWN_HOSTS_LINE_LENGTH :: nat where
  "NEO4J_MAX_KNOWN_HOSTS_LINE_LENGTH = 1024"

definition NEO4J_TEMP_FILE_SUFFIX :: string where
  "NEO4J_TEMP_FILE_SUFFIX = ''.tmpXXXXXX''"

text \<open>
  One \<^verbatim>\<open>fgets\<close> that may store up to \<open>k\<close> bytes: it stops after a newline, at
  \<open>k\<close> bytes or at the end of the file, and returns the bytes read and the rest.
\<close>

fun read_line :: "nat \<Rightarrow> string \<Rightarrow> string \<times> string" where
  "read_line 0 s = ([], s)"
| "read_line (Suc k) [] = ([], [])"
| "read_line (Suc k) (c # s) =
     (if c = LF then ([c], s) else (case read_line k s of (l, r) \<Rightarrow> (c # l, r)))"

lemma read_line_rest_le: "length (snd (read_line k s)) \<le> length s"
  by (induction k s rule: read_line.induct) (auto split: prod.splits)

lemma read_line_shorter: "s \<noteq> [] \<Longrightarrow> length (snd (read_line (Suc k) s)) < length s"
proof (cases s)
  case Nil
  assume "s \<noteq> []"
  with Nil show ?thesis by simp
next
  case (Cons c t)
  have "length (snd (read_line k t)) \<le> length t"
    by (rule read_line_rest_le)
  with Cons show ?thesis
    by (auto split: prod.splits)
qed

text \<open>
  The successive results of \<^verbatim>\<open>fgets(line, sizeof(line), stream)\<close> on a file, up to
  the call that returns \<^verbatim>\<open>NULL\<close> at the end of the file.
\<close>

function fgets_all :: "string \<Rightarrow> string list" where
  "fgets_all s =
     (if s = [] then []
      else fst (read_line (NEO4J_MAX_KNOWN_HOSTS_LINE_LENGTH - 1) s)
             # fgets_all (snd (read_line (NEO4J_MAX_KNOWN_HOSTS_LINE_LENGTH - 1) s)))"
  by pat_completeness auto
termination
proof (relation "measure length")
  show "wf (measure length)" by simp
next
  fix s :: string
  assume "s \<noteq> []"
  then have "length (snd (read_line (Suc 1022) s)) < length s"
    by (rule read_line_shorter)
  then show "(snd (read_line (NEO4J_MAX_KNOWN_HOSTS_LINE_LENGTH - 1) s), s) \<in> measure length"
    by (simp add: NEO4J_MAX_KNOWN_HOSTS_LINE_LENGTH_def)
qed

declare fgets_all.simps [simp del]

text \<open>
  How the reading loop ends: at the end of the file, or with \<^verbatim>\<open>fgets\<close> returning
  \<^verbatim>\<open>NULL\<close> on a read error (\<^verbatim>\<open>feof\<close> is false then). \<open>read_err_at = Some k\<close>
  makes the call number \<open>k\<close> (from 0) fail, if the loop gets that far.
\<close>

datatype stream_end = End_of_file | Read_error

definition stream_of :: "nat option \<Rightarrow> string \<Rightarrow> string list \<times> stream_end" where
  "stream_of read_err_at bytes =
     (case read_err_at of
        None \<Rightarrow> (fgets_all bytes, End_of_file)
      | Some k \<Rightarrow>
          if k \<le> length (fgets_all bytes) then (take k (fgets_all bytes), Read_error)
          else (fgets_all bytes, End_of_file))"

section \<open>The fingerprint store: lookup\<close>

text \<open>
  The test of both loops:
  \<^verbatim>\<open>strncmp(line, host, hostlen) == 0 && isspace(line[hostlen])\<close>.
\<close>

definition entry_matches :: "string \<Rightarrow> string \<Rightarrow> bool" where
  "entry_matches host line \<longleftrightarrow>
     strncmp_eq line host (length host) \<and> isspace (char_at line (length host))"

text \<open>
  The body of the match in \<^verbatim>\<open>retrieve_stored_fingerprint\<close>: skip the whitespace
  after the host, cut the trailing whitespace, and copy at most \<open>n - 1\<close> bytes.
\<close>

definition rstrip_len :: "string \<Rightarrow> nat" where
  "rstrip_len p = length (dropWhile isspace (rev p))"

definition stored_value :: "string \<Rightarrow> string \<Rightarrow> nat \<Rightarrow> string" where
  "stored_value host line n =
     (let p = dropWhile isspace (drop (length host + 1) line);
          l = rstrip_len p
      in take (min l (n - 1)) p)"

fun find_entry :: "string \<Rightarrow> string list \<Rightarrow> string option" where
  "find_entry host [] = None"
| "find_entry host (bytes # rest) =
     (if entry_matches host (cstr bytes) then Some (cstr bytes) else find_entry host rest)"

record read_env =
  open_fails :: bool
  read_err_at :: "nat option"

text \<open>
  Returns the result and the content of \<open>buf\<close>, which is left as it was unless a line
  matched. With \<open>n = 0\<close> the bound \<open>n - 1\<close> wraps in \<^verbatim>\<open>size_t\<close> and the copy
  overruns \<open>buf\<close>. The stream is closed on every path after it has been opened, and
  nothing is written: the world after the call is the world before it.
\<close>

definition retrieve_stored_fingerprint ::
  "read_env \<Rightarrow> world \<Rightarrow> string \<Rightarrow> string \<Rightarrow> string \<Rightarrow> nat \<Rightarrow> fault + (int \<times> string)" where
  "retrieve_stored_fingerprint e w file host buf n =
     (case fopen_r (open_fails e) w file of
        Open_failed \<Rightarrow> Inr (- 1, buf)
      | No_entry \<Rightarrow> Inr (1, buf)
      | Opened bytes \<Rightarrow>
          (case stream_of (read_err_at e) bytes of
             (lines, ending) \<Rightarrow>
               (case find_entry host lines of
                  Some line \<Rightarrow>
                    if n = 0 then Inl Buffer_overflow
                    else Inr (0, stored_value host line n)
                | None \<Rightarrow>
                    if ending = Read_error then Inr (- 1, buf) else Inr (1, buf))))"

section \<open>The fingerprint store: replace\<close>

text \<open>
  What the environment decides in one call of \<^verbatim>\<open>update_stored_fingerprint\<close>:
  \<^item> \<open>path_max\<close>: \<^verbatim>\<open>PATH_MAX\<close> of \<^verbatim>\<open><limits.h>\<close>;
  \<^item> \<open>outfile_init\<close>: the indeterminate content of the array \<open>outfile\<close> before it is
    written;
  \<^item> \<open>dir_name\<close>: what \<^verbatim>\<open>neo4j_dirname\<close> stores in \<open>outfile\<close>;
  \<^item> \<open>tmp_suffix\<close>: the six characters \<^verbatim>\<open>mkstemp\<close> puts in place of
    \<^verbatim>\<open>XXXXXX\<close>, \<open>None\<close> when it fails;
  \<^item> \<open>write_err_at = Some j\<close>: the \<^verbatim>\<open>fputs\<close> number \<open>j\<close> (from 0) returns \<^verbatim>\<open>EOF\<close>;
  \<^item> the other fields: the named call fails.
\<close>

record update_env =
  in_open_fails :: bool
  in_read_err_at :: "nat option"
  path_max :: nat
  outfile_init :: string
  dir_name :: string
  mkdir_fails :: bool
  tmp_suffix :: "string option"
  fdopen_fails :: bool
  write_err_at :: "nat option"
  in_close_fails :: bool
  fprintf_fails :: bool
  out_close_fails :: bool
  rename_fails :: bool

text \<open>
  A local stream pointer or descriptor: \<open>Null\<close> (\<^verbatim>\<open>NULL\<close>, or \<open>-1\<close> for the
  descriptor), \<open>Open\<close>, or \<open>Closed\<close>: not \<^verbatim>\<open>NULL\<close>, but \<^verbatim>\<open>fclose\<close> has
  been called on it, which ends the stream whether or not it reports an error.
\<close>

datatype handle = Null | Open | Closed

definition close_handle :: "world \<Rightarrow> world" where
  "close_handle w = w\<lparr>open_files := open_files w - 1\<rparr>"

text \<open>The code after the label \<^verbatim>\<open>failure\<close>.\<close>

definition failure ::
  "world \<Rightarrow> handle \<Rightarrow> handle \<Rightarrow> handle \<Rightarrow> string \<Rightarrow> fault + (int \<times> world)" where
  "failure w in_stream out_stream out_fd outfile =
     (if in_stream = Closed then Inl Double_fclose
      else
        let w1 = (if in_stream \<noteq> Null then close_handle w else w) in
        if out_stream = Closed then Inl Double_fclose
        else
          let w2 = (if out_stream \<noteq> Null then close_handle w1 else w1);
              w3 = (if out_fd \<noteq> Null then close_handle w2 else w2);
              w4 = (if outfile \<noteq> [] then unlink w3 outfile else w3)
          in Inr (- 1, w4))"

text \<open>
  The copying loop over the lines read: a matching line is skipped, any other is written
  with \<^verbatim>\<open>fputs\<close>. \<open>j\<close> counts the calls of \<^verbatim>\<open>fputs\<close>, \<open>out\<close> is what has been
  written; \<open>None\<close> is a failed write.
\<close>

fun copy_lines :: "string \<Rightarrow> nat option \<Rightarrow> nat \<Rightarrow> string list \<Rightarrow> string \<Rightarrow> string option" where
  "copy_lines host werr j [] out = Some out"
| "copy_lines host werr j (bytes # rest) out =
     (if entry_matches host (cstr bytes) then copy_lines host werr j rest out
      else if werr = Some j then None
      else copy_lines host werr (Suc j) rest (out @ cstr bytes))"

text \<open>
  \<^verbatim>\<open>mkstemp(outfile)\<close>: creates and opens a file whose name did not exist.
\<close>

definition mkstemp :: "string option \<Rightarrow> world \<Rightarrow> string \<Rightarrow> (string \<times> world) option" where
  "mkstemp suffix w file =
     (case suffix of
        None \<Rightarrow> None
      | Some sfx \<Rightarrow>
          let outfile = file @ take 4 NEO4J_TEMP_FILE_SUFFIX @ sfx in
          if length sfx \<noteq> 6 \<or> files w outfile \<noteq> None then None
          else Some (outfile, w\<lparr>files := (files w)(outfile \<mapsto> []), open_files := Suc (open_files w)\<rparr>))"

definition rename :: "world \<Rightarrow> string \<Rightarrow> string \<Rightarrow> world" where
  "rename w old new = w\<lparr>files := ((files w)(new := files w old))(old := None)\<rparr>"

text \<open>
  Lines 214 to 248: the lines of the existing file are copied and the input stream is
  closed. \<open>Inl\<close> is the result of a jump to \<^verbatim>\<open>failure\<close>, \<open>Inr\<close> what has been
  written so far and the world. When \<^verbatim>\<open>fclose(in_stream)\<close> reports an error the
  jump is taken with \<open>in_stream\<close> still set.
\<close>

definition copy_existing ::
  "update_env \<Rightarrow> world \<Rightarrow> fopen_result \<Rightarrow> string \<Rightarrow> string
     \<Rightarrow> (fault + (int \<times> world)) + (string \<times> world)" where
  "copy_existing e w1 opened host outfile =
     (case opened of
        Opened bytes \<Rightarrow>
          (case stream_of (in_read_err_at e) bytes of
             (lines, ending) \<Rightarrow>
               (case copy_lines host (write_err_at e) 0 lines [] of
                  None \<Rightarrow> Inl (failure w1 Open Open Null outfile)
                | Some out \<Rightarrow>
                    if ending = Read_error then Inl (failure w1 Open Open Null outfile)
                    else if in_close_fails e
                    then Inl (failure (close_handle w1) Closed Open Null outfile)
                    else Inr (out, close_handle w1)))
      | _ \<Rightarrow> Inr ([], w1))"

text \<open>What \<^verbatim>\<open>fprintf(out_stream, "%s %s\n", host, fingerprint)\<close> writes.\<close>

definition new_entry :: "string \<Rightarrow> string \<Rightarrow> string" where
  "new_entry host fingerprint = host @ '' '' @ fingerprint @ [LF]"

text \<open>
  Lines 250 to 273: the new entry is written, the temporary file is closed and renamed
  over the known-hosts file. When \<^verbatim>\<open>fclose(out_stream)\<close> reports an error the jump
  to \<^verbatim>\<open>failure\<close> is taken with \<open>out_stream\<close> still set.
\<close>

definition write_entry ::
  "update_env \<Rightarrow> world \<Rightarrow> string \<Rightarrow> string \<Rightarrow> string \<Rightarrow> string \<Rightarrow> string
     \<Rightarrow> fault + (int \<times> world)" where
  "write_entry e w2 out file host fingerprint outfile =
     (if fprintf_fails e then failure w2 Null Open Null outfile
      else
        let written = out @ new_entry host fingerprint in
        if out_close_fails e then failure (close_handle w2) Null Closed Null outfile
        else
          let w3 = close_handle (w2\<lparr>files := (files w2)(outfile \<mapsto> written)\<rparr>) in
          if rename_fails e then failure w3 Null Null Null outfile
          else Inr (0, rename w3 outfile file))"

definition update_stored_fingerprint ::
  "update_env \<Rightarrow> world \<Rightarrow> string \<Rightarrow> string \<Rightarrow> string \<Rightarrow> fault + (int \<times> world)" where
  "update_stored_fingerprint e w file host fingerprint =
     (case fopen_r (in_open_fails e) w file of
        Open_failed \<Rightarrow> Inr (- 1, w)
      | opened \<Rightarrow>
          let in_stream = (case opened of Opened _ \<Rightarrow> Open | _ \<Rightarrow> Null);
              w0 = (if in_stream = Open then w\<lparr>open_files := Suc (open_files w)\<rparr> else w)
          in
          if length file + length NEO4J_TEMP_FILE_SUFFIX + 1 > path_max e
          then failure w0 in_stream Null Null (outfile_init e)
          else if mkdir_fails e
          then failure w0 in_stream Null Null (dir_name e)
          else
            (case mkstemp (tmp_suffix e) w0 file of
               None \<Rightarrow> failure w0 in_stream Null Null []
             | Some (outfile, w1) \<Rightarrow>
                 if fdopen_fails e then failure w1 in_stream Null Open outfile
                 else
                   (case copy_existing e w1 opened host outfile of
                      Inl failed \<Rightarrow> failed
                    | Inr (out, w2) \<Rightarrow> write_entry e w2 out file host fingerprint outfile)))"

section \<open>The host verifier\<close>

datatype neo4j_unverified_host_reason =
  NEO4J_HOST_VERIFICATION_UNRECOGNIZED | NEO4J_HOST_VERIFICATION_MISMATCH

text \<open>
  Modelled from the spec: the values a callback returns are declared in
  \<^verbatim>\<open>neo4j-client.h\<close>, which is not among the sources. The spec gives the closed
  enumeration \<open>TRUST\<close>, \<open>ACCEPT_ONCE\<close>, \<open>REJECT\<close>; only that the three differ matters.
\<close>

definition NEO4J_HOST_VERIFICATION_REJECT :: int where
  "NEO4J_HOST_VERIFICATION_REJECT = 0"

definition NEO4J_HOST_VERIFICATION_ACCEPT_ONCE :: int where
  "NEO4J_HOST_VERIFICATION_ACCEPT_ONCE = 1"

definition NEO4J_HOST_VERIFICATION_TRUST :: int where
  "NEO4J_HOST_VERIFICATION_TRUST = 2"

text \<open>
  Modelled from the spec: the macro \<^verbatim>\<open>REQUIRE(cond, res)\<close> of \<^verbatim>\<open>util.h\<close> is not
  among the sources. An invalid argument is a local failure, "surfaced immediately from
  the failing call": when \<open>cond\<close> is false the function returns \<open>res\<close>.
\<close>

definition REQUIRE :: "bool \<Rightarrow> 'a \<Rightarrow> 'a \<Rightarrow> 'a" where
  "REQUIRE cond res continue = (if cond then continue else res)"

text \<open>
  The callback is a pure decision function of the user data, the host label, the
  fingerprint and the reason. A call of it is recorded as these four arguments.
\<close>

type_synonym callback = "nat \<Rightarrow> string \<Rightarrow> string \<Rightarrow> neo4j_unverified_host_reason \<Rightarrow> int"

type_synonym callback_call = "nat \<times> string \<times> string \<times> neo4j_unverified_host_reason"

record neo4j_config =
  known_hosts_file :: "string option"
  unverified_host_callback :: "callback option"
  unverified_host_callback_userdata :: nat

text \<open>
  What the environment decides in one call of \<^verbatim>\<open>neo4j_check_known_hosts\<close>:
  \<open>dot_dir\<close> is the path \<^verbatim>\<open>neo4j_dot_dir\<close> stores in \<open>buf\<close> (\<open>None\<close> when it fails),
  \<open>existing_init\<close> the indeterminate content of the array \<open>existing\<close> before the lookup
  writes it, and the faults of the lookup and of the replace.
\<close>

record check_env =
  dot_dir :: "string option"
  existing_init :: string
  lookup_env :: read_env
  replace_env :: update_env

text \<open>
  The file the call works on: \<^verbatim>\<open>config->known_hosts_file\<close>, or the default
  location when that is \<^verbatim>\<open>NULL\<close>.
\<close>

definition known_hosts_path :: "check_env \<Rightarrow> neo4j_config \<Rightarrow> string option" where
  "known_hosts_path env config =
     (case known_hosts_file config of Some file \<Rightarrow> Some file | None \<Rightarrow> dot_dir env)"

text \<open>What \<^verbatim>\<open>snprintf(host, sizeof(host), "%s:%d", hostname, port)\<close> formats.\<close>

definition host_label :: "string \<Rightarrow> 32 word \<Rightarrow> string" where
  "host_label hostname port = hostname @ '':'' @ dec_int (sint port)"

text \<open>
  Returns the result, the world after the call, and the calls made to the callback.
  \<open>flags\<close> is not used by the function.
\<close>

definition neo4j_check_known_hosts ::
  "check_env \<Rightarrow> neo4j_config \<Rightarrow> world \<Rightarrow> string \<Rightarrow> 32 word \<Rightarrow> string \<Rightarrow> 8 word
     \<Rightarrow> fault + (int \<times> world \<times> callback_call list)" where
  "neo4j_check_known_hosts env config w hostname port fingerprint flags =
     REQUIRE (length hostname < 256 \<and> char_at hostname 0 \<noteq> NUL) (Inr (- 1, w, []))
       (case known_hosts_path env config of
          None \<Rightarrow> Inr (- 1, w, [])
        | Some file \<Rightarrow>
            let host = take (NEO4J_MAX_HOST_LENGTH - 1) (host_label hostname port);
                n = length (host_label hostname port)
            in
            if \<not> (n > 0 \<and> n < NEO4J_MAX_HOST_LENGTH) then Inl Assertion_failed
            else
              (case retrieve_stored_fingerprint (lookup_env env) w file host
                      (existing_init env) NEO4J_MAX_FINGERPRINT_LENGTH of
                 Inl f \<Rightarrow> Inl f
               | Inr (result, existing) \<Rightarrow>
                   if result > 0 \<or> fingerprint \<noteq> existing then
                     (let reason = (if result = 0 then NEO4J_HOST_VERIFICATION_MISMATCH
                                    else NEO4J_HOST_VERIFICATION_UNRECOGNIZED)
                      in
                      case unverified_host_callback config of
                        None \<Rightarrow> Inr (1, w, [])
                      | Some cb \<Rightarrow>
                          let userdata = unverified_host_callback_userdata config;
                              action = cb userdata host fingerprint reason;
                              calls = [(userdata, host, fingerprint, reason)]
                          in
                          if action = NEO4J_HOST_VERIFICATION_TRUST then
                            (case update_stored_fingerprint (replace_env env) w file host
                                    fingerprint of
                               Inl f \<Rightarrow> Inl f
                             | Inr (r, w') \<Rightarrow>
                                 if r \<noteq> 0 then Inr (- 1, w', calls) else Inr (0, w', calls))
                          else if action = NEO4J_HOST_VERIFICATION_ACCEPT_ONCE then
                            Inr (0, w, calls)
                          else Inr (1, w, calls))
                   else Inr (result, w, [])))"

section \<open>Records of a result stream\<close>

text \<open>
  Modelled from the spec: the type \<^verbatim>\<open>neo4j_value_t\<close> and the value
  \<^verbatim>\<open>neo4j_null\<close> are declared in \<^verbatim>\<open>neo4j-client.h\<close>, which is not among the
  sources. The constructors are the kinds of value the spec lists.
\<close>

datatype neo4j_value =
  Null_value
  | Bool_value bool
  | Int_value "64 word"
  | Float_value "64 word"
  | String_value string
  | Bytes_value "8 word list"
  | List_value "neo4j_value list"
  | Map_value "(string \<times> neo4j_value) list"
  | Node_value "neo4j_value list"
  | Relationship_value "neo4j_value list"
  | Path_value "neo4j_value list"

definition neo4j_null :: neo4j_value where
  "neo4j_null = Null_value"

text \<open>
  \<^verbatim>\<open>struct neo4j_result\<close> is a table of function pointers; \<open>field\<close> is the first.
  The other two, \<open>retain\<close> and \<open>release\<close>, act on the reference count and are left out.
\<close>

record neo4j_result =
  field :: "32 word \<Rightarrow> neo4j_value"

text \<open>
  Modelled from the spec: only the declaration of \<^verbatim>\<open>struct neo4j_result\<close> is among
  the sources, not an implementation of \<open>field\<close>. By the spec a record is an ordered
  sequence of \<open>nfields\<close> values and \<open>field(i)\<close> "returns the \<open>i\<close>-th value.
  Out-of-range indices return the null value (not an error)".
\<close>

definition record_field :: "neo4j_value list \<Rightarrow> 32 word \<Rightarrow> neo4j_value" where
  "record_field vals index =
     (if unat index < length vals then vals ! unat index else neo4j_null)"

definition record_result :: "neo4j_value list \<Rightarrow> neo4j_result" where
  "record_result vals = \<lparr>field = record_field vals\<rparr>"

definition nfields :: "neo4j_value list \<Rightarrow> nat" where
  "nfields vals = length vals"

section \<open>Notions for stating the properties of the store\<close>

text \<open>
  What the copying loop has written when no write fails: the lines that do not match,
  each as \<^verbatim>\<open>fputs\<close> writes it.
\<close>

definition kept_lines :: "string \<Rightarrow> string list \<Rightarrow> string" where
  "kept_lines host lines = concat (filter (\<lambda>l. \<not> entry_matches host l) (map cstr lines))"

text \<open>
  The lines of a file that both loops take for entries of \<open>host\<close>, in the order of the
  file.
\<close>

definition lines_keyed :: "string \<Rightarrow> string \<Rightarrow> string list" where
  "lines_keyed host bytes = filter (entry_matches host) (map cstr (fgets_all bytes))"

text \<open>
  A known-hosts file as the store itself writes it: no NUL byte, and every line ends
  with a newline.
\<close>

definition text_file :: "string \<Rightarrow> bool" where
  "text_file bytes \<longleftrightarrow> NUL \<notin> set bytes \<and> (bytes = [] \<or> last bytes = LF)"

text \<open>
  The fingerprint a line stores for \<open>host\<close>: what follows the host label and one
  more byte, without its leading and trailing whitespace, as the lookup finds it before
  it cuts it to the size of the buffer.
\<close>

definition stored_fingerprint :: "string \<Rightarrow> string \<Rightarrow> string" where
  "stored_fingerprint host line =
     (let p = dropWhile isspace (drop (length host + 1) line) in take (rstrip_len p) p)"

text \<open>A string without its leading and trailing whitespace.\<close>

definition strip :: "string \<Rightarrow> string" where
  "strip s = rev (dropWhile isspace (rev (dropWhile isspace s)))"

text \<open>
  A line as one call of \<^verbatim>\<open>fgets\<close> with room for \<open>k\<close> bytes returns it when more of
  the file follows: it ends with the only newline in it, or it fills the \<open>k\<close> bytes.
\<close>

definition whole_line :: "nat \<Rightarrow> string \<Rightarrow> bool" where
  "whole_line k l \<longleftrightarrow>
     l \<noteq> [] \<and> LF \<notin> set (butlast l) \<and> length l \<le> k \<and> (last l = LF \<or> length l = k)"

section \<open>Scenarios\<close>

text \<open>
  The concrete inputs of the scenarios: a known-hosts path, an environment in which no
  call of the C library fails, and stores with given content.
\<close>

definition hosts_path :: string where
  "hosts_path = ''/home/u/.neo4j/known_certs''"

definition no_read_faults :: read_env where
  "no_read_faults = \<lparr>open_fails = False, read_err_at = None\<rparr>"

definition no_faults :: update_env where
  "no_faults =
     \<lparr>in_open_fails = False, in_read_err_at = None, path_max = 4096, outfile_init = [],
      dir_name = ''/home/u/.neo4j'', mkdir_fails = False, tmp_suffix = Some ''a1B2c3'',
      fdopen_fails = False, write_err_at = None, in_close_fails = False,
      fprintf_fails = False, out_close_fails = False, rename_fails = False\<rparr>"

definition calm :: check_env where
  "calm = \<lparr>dot_dir = None, existing_init = [], lookup_env = no_read_faults,
            replace_env = no_faults\<rparr>"

definition config_of :: "callback option \<Rightarrow> neo4j_config" where
  "config_of cb = \<lparr>known_hosts_file = Some hosts_path, unverified_host_callback = cb,
                    unverified_host_callback_userdata = 0\<rparr>"

definition fresh_store :: world where
  "fresh_store = \<lparr>files = Map.empty, open_files = 0\<rparr>"

definition store_with :: "string \<Rightarrow> world" where
  "store_with bytes = \<lparr>files = [hosts_path \<mapsto> bytes], open_files = 0\<rparr>"

text \<open>The store of scenarios S3 and S4, and callbacks with a fixed answer.\<close>

definition pinned :: string where
  "pinned = ''db.example:7687 AA:BB'' @ [LF]"

text \<open>A lookup that cannot open the file, and one whose first read fails.\<close>

definition unreadable :: read_env where
  "unreadable = \<lparr>open_fails = True, read_err_at = None\<rparr>"

definition failing_read :: read_env where
  "failing_read = \<lparr>open_fails = False, read_err_at = Some 0\<rparr>"

definition accepting_once :: callback where
  "accepting_once u h f r = NEO4J_HOST_VERIFICATION_ACCEPT_ONCE"

definition trusting :: callback where
  "trusting u h f r = NEO4J_HOST_VERIFICATION_TRUST"

text \<open>A SHA-256 digest in hexadecimal, 64 characters.\<close>

definition sha256_hex :: string where
  "sha256_hex = ''3a7bd3e2360a3d29eea436fcfb7e44c735d117c42d1c1835420b6b9942dd4f1b''"

text \<open>Its first 59 characters: what fits the buffer of the verifier.\<close>

definition sha256_hex_prefix :: string where
  "sha256_hex_prefix = ''3a7bd3e2360a3d29eea436fcfb7e44c735d117c42d1c1835420b6b9942d''"

text \<open>A store that holds the digest for the host, and a callback that rejects.\<close>

definition pinned_digest :: string where
  "pinned_digest = ''db.example:7687 '' @ sha256_hex @ [LF]"

definition rejecting :: callback where
  "rejecting u h f r = NEO4J_HOST_VERIFICATION_REJECT"

text \<open>A store with entries for two hosts, before and after a replace for the first.\<close>

definition two_entries :: string where
  "two_entries = ''a:1 X'' @ [LF] @ ''b:2 Y'' @ [LF]"

definition two_entries_replaced :: string where
  "two_entries_replaced = ''b:2 Y'' @ [LF] @ ''a:1 Z'' @ [LF]"

text \<open>
  A single line of 1031 bytes for the host \<open>h2:1\<close>: \<^verbatim>\<open>fgets\<close> returns its first 1023
  bytes, and then the rest, which starts with \<open>h1:1\<close> and a space.
\<close>

definition long_line_head :: string where
  "long_line_head = ''h2:1 '' @ replicate 1018 CHR ''A''"

definition long_line_file :: string where
  "long_line_file = long_line_head @ ''h1:1 zz'' @ [LF]"

definition long_line_replaced :: string where
  "long_line_replaced = long_line_head @ ''h1:1 X'' @ [LF]"

section \<open>Evaluation and basic facts\<close>

lemma read_line_Nil: "read_line k [] = ([], [])"
  by (cases k) simp_all

lemma read_line_Cons:
  "0 < k \<Longrightarrow> read_line k (c # s) =
     (if c = LF then ([c], s) else (case read_line (k - 1) s of (l, r) \<Rightarrow> (c # l, r)))"
  by (cases k) simp_all

lemmas store_eval =
  fopen_r_def unlink_def rename_def mkstemp_def close_handle_def failure_def
  copy_existing_def write_entry_def new_entry_def update_stored_fingerprint_def
  retrieve_stored_fingerprint_def stream_of_def fgets_all.simps read_line_Nil read_line_Cons
  entry_matches_def strncmp_eq_def char_at_def isspace_def cstr_def stored_value_def
  rstrip_len_def NUL_def LF_def
  NEO4J_MAX_KNOWN_HOSTS_LINE_LENGTH_def NEO4J_TEMP_FILE_SUFFIX_def
  NEO4J_MAX_FINGERPRINT_LENGTH_def NEO4J_MAX_HOST_LENGTH_def Let_def

lemmas scenario_eval =
  hosts_path_def no_read_faults_def no_faults_def calm_def config_of_def fresh_store_def
  store_with_def

lemmas check_eval =
  neo4j_check_known_hosts_def REQUIRE_def known_hosts_path_def host_label_def dec_int_def
  dec_nat.simps digit_char_def NEO4J_HOST_VERIFICATION_TRUST_def
  NEO4J_HOST_VERIFICATION_ACCEPT_ONCE_def NEO4J_HOST_VERIFICATION_REJECT_def

lemma example_label: "host_label ''db.example'' 7687 = ''db.example:7687''"
  by (simp add: host_label_def dec_int_def dec_nat.simps digit_char_def)

text \<open>
  The assertion after \<^verbatim>\<open>snprintf\<close> cannot fail, and the label is never truncated:
  a host name shorter than 256 bytes, a colon and the at most 11 characters of an
  \<^verbatim>\<open>int\<close> stay below 512.
\<close>

lemma dec_nat_length: "0 < k \<Longrightarrow> n < 10 ^ k \<Longrightarrow> length (dec_nat n) \<le> k"
proof (induction n arbitrary: k rule: dec_nat.induct)
  case (1 n)
  show ?case
  proof (cases "n < 10")
    case True
    with "1.prems" show ?thesis by (subst dec_nat.simps) simp
  next
    case False
    then obtain j where k: "k = Suc j" and j: "0 < j"
      using "1.prems" by (cases k; cases "k - 1") auto
    from "1.prems" k have "n div 10 < 10 ^ j"
      by (simp add: less_mult_imp_div_less mult.commute)
    with "1.IH" [OF False j] have "length (dec_nat (n div 10)) \<le> j" .
    with False k show ?thesis by (subst dec_nat.simps) simp
  qed
qed

lemma dec_int_length: "length (dec_int (sint (p :: 32 word))) \<le> 11"
proof -
  have lo: "- (2 ^ 31) \<le> sint p" and hi: "sint p < 2 ^ 31"
    using sint_range_size [of p] by (simp_all add: word_size)
  have "nat \<bar>sint p\<bar> < 10 ^ 10" using lo hi by simp
  then have "length (dec_nat (nat \<bar>sint p\<bar>)) \<le> 10"
    by (intro dec_nat_length) simp_all
  then show ?thesis
    by (auto simp: dec_int_def abs_if split: if_splits)
qed

lemma host_label_fits:
  assumes "length hostname < 256"
  shows "0 < length (host_label hostname port)"
    and "length (host_label hostname port) < NEO4J_MAX_HOST_LENGTH"
    and "take (NEO4J_MAX_HOST_LENGTH - 1) (host_label hostname port) = host_label hostname port"
  using assms dec_int_length [of port]
  by (simp_all add: host_label_def NEO4J_MAX_HOST_LENGTH_def)

lemma hostname_first_char:
  "hostname \<noteq> [] \<Longrightarrow> NUL \<notin> set hostname \<Longrightarrow> char_at hostname 0 \<noteq> NUL"
  by (cases hostname) (auto simp: char_at_def)

text \<open>
  With a valid host name and a known-hosts path, the call is the lookup followed by the
  decision of lines 70 to 98.
\<close>

lemma check_known_hosts_valid:
  assumes "length hostname < 256" and "hostname \<noteq> []" and "NUL \<notin> set hostname"
    and "known_hosts_path env config = Some file"
  shows "neo4j_check_known_hosts env config w hostname port fingerprint flags =
    (case retrieve_stored_fingerprint (lookup_env env) w file (host_label hostname port)
            (existing_init env) NEO4J_MAX_FINGERPRINT_LENGTH of
       Inl f \<Rightarrow> Inl f
     | Inr (result, existing) \<Rightarrow>
         if result > 0 \<or> fingerprint \<noteq> existing then
           (case unverified_host_callback config of
              None \<Rightarrow> Inr (1, w, [])
            | Some cb \<Rightarrow>
                let reason = (if result = 0 then NEO4J_HOST_VERIFICATION_MISMATCH
                              else NEO4J_HOST_VERIFICATION_UNRECOGNIZED);
                    userdata = unverified_host_callback_userdata config;
                    action = cb userdata (host_label hostname port) fingerprint reason;
                    calls = [(userdata, host_label hostname port, fingerprint, reason)]
                in
                if action = NEO4J_HOST_VERIFICATION_TRUST then
                  (case update_stored_fingerprint (replace_env env) w file
                          (host_label hostname port) fingerprint of
                     Inl f \<Rightarrow> Inl f
                   | Inr (r, w') \<Rightarrow> if r \<noteq> 0 then Inr (- 1, w', calls) else Inr (0, w', calls))
                else if action = NEO4J_HOST_VERIFICATION_ACCEPT_ONCE then Inr (0, w, calls)
                else Inr (1, w, calls))
         else Inr (result, w, []))"
  using assms host_label_fits [OF assms(1), of port] hostname_first_char [OF assms(2,3)]
  by (auto simp: neo4j_check_known_hosts_def REQUIRE_def Let_def
      split: sum.splits option.splits)

lemma example_hostname:
  "length ''db.example'' < 256" "''db.example'' \<noteq> []" "NUL \<notin> set ''db.example''"
  by (simp_all add: NUL_def)

lemma example_path: "known_hosts_path calm (config_of cb) = Some hosts_path"
  by (simp add: known_hosts_path_def config_of_def)

section \<open>The reading loop\<close>

lemma read_line_full:
  "LF \<notin> set l \<Longrightarrow> length l = k \<Longrightarrow> read_line k (l @ rest) = (l, rest)"
  by (induction l arbitrary: k) auto

lemma read_line_newline:
  "LF \<notin> set l \<Longrightarrow> length l < k \<Longrightarrow> read_line k (l @ LF # rest) = (l @ [LF], rest)"
proof (induction l arbitrary: k)
  case Nil
  then show ?case by (cases k) simp_all
next
  case (Cons c l)
  then obtain j where "k = Suc j" by (cases k) auto
  with Cons show ?case by auto
qed

lemma read_line_whole:
  assumes "whole_line k l"
  shows "read_line k (l @ rest) = (l, rest)"
proof (cases "last l = LF")
  case True
  from assms have "l \<noteq> []" by (simp add: whole_line_def)
  with True have l: "l = butlast l @ [LF]"
    by (metis append_butlast_last_id)
  from assms have "LF \<notin> set (butlast l)"
    by (simp add: whole_line_def)
  moreover from assms have "length (butlast l) < k"
    by (cases l) (auto simp: whole_line_def)
  ultimately have "LF \<notin> set (butlast l)" and "length (butlast l) < k" .
  then have "read_line k (butlast l @ LF # rest) = (butlast l @ [LF], rest)"
    by (rule read_line_newline)
  with l show ?thesis by (metis append.assoc append_Cons append_Nil)
next
  case False
  with assms have "length l = k" and "l \<noteq> []" and "LF \<notin> set (butlast l)"
    by (auto simp: whole_line_def)
  with False have "LF \<notin> set l"
    by (metis append_butlast_last_id Un_iff empty_iff insert_iff list.set(1) list.simps(15) set_append)
  then show ?thesis using \<open>length l = k\<close> by (rule read_line_full)
qed

lemma read_line_concat: "fst (read_line k s) @ snd (read_line k s) = s"
  by (induction k s rule: read_line.induct) (auto split: prod.splits)

lemma read_line_shape:
  "LF \<notin> set (butlast (fst (read_line k s))) \<and> length (fst (read_line k s)) \<le> k"
  by (induction k s rule: read_line.induct) (auto split: prod.splits)

lemma read_line_nonempty: "s \<noteq> [] \<Longrightarrow> 0 < k \<Longrightarrow> fst (read_line k s) \<noteq> []"
  by (cases k; cases s) (auto split: prod.splits)

lemma read_line_stops:
  "snd (read_line k s) \<noteq> [] \<Longrightarrow>
     length (fst (read_line k s)) = k \<or> (fst (read_line k s) \<noteq> [] \<and> last (fst (read_line k s)) = LF)"
  by (induction k s rule: read_line.induct) (auto split: prod.splits)

lemma fgets_all_Nil: "fgets_all [] = []"
  by (simp add: fgets_all.simps)

lemma fgets_all_whole:
  assumes "whole_line (NEO4J_MAX_KNOWN_HOSTS_LINE_LENGTH - 1) l"
  shows "fgets_all (l @ rest) = l # fgets_all rest"
proof -
  from assms have "l @ rest \<noteq> []" by (simp add: whole_line_def)
  with read_line_whole [OF assms, of rest] show ?thesis
    by (subst fgets_all.simps) simp
qed

lemma fgets_all_lines:
  "\<forall>l \<in> set ls. whole_line (NEO4J_MAX_KNOWN_HOSTS_LINE_LENGTH - 1) l \<Longrightarrow>
     fgets_all (concat ls @ rest) = ls @ fgets_all rest"
  by (induction ls) (simp_all add: fgets_all_whole)

lemma fgets_all_concat: "concat (fgets_all s) = s"
proof (induction s rule: fgets_all.induct)
  case (1 s)
  show ?case
  proof (cases "s = []")
    case True
    then show ?thesis by (simp add: fgets_all_Nil)
  next
    case False
    with "1.IH" show ?thesis
      by (subst fgets_all.simps) (simp add: read_line_concat)
  qed
qed

lemma fgets_all_whole_lines:
  "s = [] \<or> last s = LF \<Longrightarrow>
     \<forall>l \<in> set (fgets_all s). whole_line (NEO4J_MAX_KNOWN_HOSTS_LINE_LENGTH - 1) l"
proof (induction s rule: fgets_all.induct)
  case (1 s)
  let ?k = "NEO4J_MAX_KNOWN_HOSTS_LINE_LENGTH - 1"
  let ?l = "fst (read_line ?k s)" and ?r = "snd (read_line ?k s)"
  show ?case
  proof (cases "s = []")
    case True
    then show ?thesis by (simp add: fgets_all_Nil)
  next
    case False
    with "1.prems" have last: "last s = LF" by simp
    have split: "?l @ ?r = s" by (rule read_line_concat)
    have k: "0 < ?k" by (simp add: NEO4J_MAX_KNOWN_HOSTS_LINE_LENGTH_def)
    from False k have ne: "?l \<noteq> []" by (rule read_line_nonempty)
    have shape: "LF \<notin> set (butlast ?l)" "length ?l \<le> ?k"
      using read_line_shape [of ?k s] by simp_all
    have first: "whole_line ?k ?l"
    proof (cases "?r = []")
      case True
      with split last have "last ?l = LF" by simp
      with ne shape show ?thesis by (simp add: whole_line_def)
    next
      case False
      then have "length ?l = ?k \<or> (?l \<noteq> [] \<and> last ?l = LF)"
        by (rule read_line_stops)
      with ne shape show ?thesis by (auto simp: whole_line_def)
    qed
    have "?r = [] \<or> last ?r = LF"
      using split last by (metis last_appendR)
    with "1.IH" [OF False] have rest: "\<forall>l \<in> set (fgets_all ?r). whole_line ?k l" .
    have "fgets_all s = ?l # fgets_all ?r"
      using False by (subst fgets_all.simps) simp
    with first rest show ?thesis by simp
  qed
qed

lemma fgets_all_no_NUL: "NUL \<notin> set s \<Longrightarrow> l \<in> set (fgets_all s) \<Longrightarrow> NUL \<notin> set l"
  using fgets_all_concat [of s] by (metis UN_I set_concat)

lemma cstr_id: "NUL \<notin> set s \<Longrightarrow> cstr s = s"
  by (auto simp: cstr_def takeWhile_eq_all_conv)

section \<open>Replace: what a call returns\<close>

lemma copy_lines_Some:
  "copy_lines host werr j lines out = Some out' \<Longrightarrow> out' = out @ kept_lines host lines"
proof (induction lines arbitrary: j out)
  case Nil
  then show ?case by (simp add: kept_lines_def)
next
  case (Cons bytes rest)
  show ?case
  proof (cases "entry_matches host (cstr bytes)")
    case True
    with Cons.prems have "copy_lines host werr j rest out = Some out'" by simp
    then have "out' = out @ kept_lines host rest" by (rule Cons.IH)
    with True show ?thesis by (simp add: kept_lines_def)
  next
    case False
    with Cons.prems have "copy_lines host werr (Suc j) rest (out @ cstr bytes) = Some out'"
      by (simp split: if_splits)
    then have "out' = (out @ cstr bytes) @ kept_lines host rest" by (rule Cons.IH)
    with False show ?thesis by (simp add: kept_lines_def)
  qed
qed

lemma kept_lines_Nil: "kept_lines host [] = []"
  by (simp add: kept_lines_def)

lemma failure_returns: "failure w a b c outfile = Inr (r, w') \<Longrightarrow> r = - 1"
  by (auto simp: failure_def Let_def split: if_splits)

lemma stream_of_End:
  "stream_of k bytes = (lines, ending) \<Longrightarrow> ending \<noteq> Read_error \<Longrightarrow> lines = fgets_all bytes"
  by (auto simp: stream_of_def split: option.splits if_splits)

lemma copy_existing_Inr:
  assumes "copy_existing e w1 opened host outfile = Inr (out, w2)"
  shows "out = kept_lines host (case opened of Opened bytes \<Rightarrow> fgets_all bytes | _ \<Rightarrow> [])"
    and "w2 = (case opened of Opened bytes \<Rightarrow> close_handle w1 | _ \<Rightarrow> w1)"
  using assms
  by (auto simp: copy_existing_def split: fopen_result.splits prod.splits
      option.splits if_splits dest!: copy_lines_Some dest: stream_of_End)
    (simp_all add: kept_lines_Nil)

lemma copy_existing_Inl:
  "copy_existing e w1 opened host outfile = Inl (Inr (r, w')) \<Longrightarrow> r = - 1"
  by (auto simp: copy_existing_def split: fopen_result.splits prod.splits
      option.splits if_splits dest: failure_returns)

lemma write_entry_success:
  assumes "write_entry e w2 out file host fp outfile = Inr (0, w')"
  shows "w' = rename (close_handle (w2\<lparr>files := (files w2)(outfile \<mapsto> out @ new_entry host fp)\<rparr>)) outfile file"
  using assms
  by (auto simp: write_entry_def Let_def split: if_splits dest: failure_returns)

lemma mkstemp_Some:
  assumes "mkstemp sfx w0 file = Some (outfile, w1)"
  shows "outfile \<notin> dom (files w0)" and "outfile \<noteq> file"
    and "w1 = w0\<lparr>files := (files w0)(outfile \<mapsto> []), open_files := Suc (open_files w0)\<rparr>"
  using assms
  by (auto simp: mkstemp_def Let_def NEO4J_TEMP_FILE_SUFFIX_def split: option.splits if_splits)

lemma update_success:
  assumes "update_stored_fingerprint e w file host fp = Inr (0, w')"
  shows "files w' = (files w)(file \<mapsto>
            kept_lines host (case files w file of None \<Rightarrow> [] | Some bytes \<Rightarrow> fgets_all bytes)
              @ new_entry host fp)"
    and "open_files w' = open_files w"
proof -
  let ?opened = "fopen_r (in_open_fails e) w file"
  let ?w0 = "if (case ?opened of Opened _ \<Rightarrow> Open | _ \<Rightarrow> Null) = Open
             then w\<lparr>open_files := Suc (open_files w)\<rparr> else w"
  from assms have nf: "?opened \<noteq> Open_failed"
    by (auto simp: update_stored_fingerprint_def)
  from assms obtain outfile w1 out w2 where
    tmp: "mkstemp (tmp_suffix e) ?w0 file = Some (outfile, w1)"
    and copy: "copy_existing e w1 ?opened host outfile = Inr (out, w2)"
    and entry: "write_entry e w2 out file host fp outfile = Inr (0, w')"
    by (auto simp: update_stored_fingerprint_def Let_def
        split: fopen_result.splits if_splits option.splits sum.splits prod.splits
        dest: failure_returns copy_existing_Inl)
  note t = mkstemp_Some [OF tmp]
  note c = copy_existing_Inr [OF copy]
  note r = write_entry_success [OF entry]
  have files0: "files ?w0 = files w" by simp
  with t(1) have fresh: "files w outfile = None" by (simp add: domIff)
  from t(3) have w1: "files w1 = (files w)(outfile \<mapsto> [])"
    and n1: "open_files w1 = Suc (open_files ?w0)"
    by (simp_all add: files0)
  show "files w' = (files w)(file \<mapsto>
            kept_lines host (case files w file of None \<Rightarrow> [] | Some bytes \<Rightarrow> fgets_all bytes)
              @ new_entry host fp)"
    using t(2) fresh w1 c r nf
    by (auto simp: rename_def close_handle_def fopen_r_def fun_eq_iff
        split: fopen_result.splits option.splits if_splits)
  show "open_files w' = open_files w"
    using n1 c r nf
    by (auto simp: rename_def close_handle_def fopen_r_def
        split: fopen_result.splits option.splits if_splits)
qed

lemma failure_clean:
  assumes "failure w a b c outfile = Inr (r, w')"
  shows "r = - 1" and "p \<noteq> outfile \<Longrightarrow> files w' p = files w p"
    and "open_files w' = open_files w - (if a = Open then 1 else 0) - (if b = Open then 1 else 0)
           - (if c = Null then 0 else 1)"
  using assms
  by (cases a; cases b; cases c;
      auto simp: failure_def Let_def unlink_def close_handle_def split: if_splits)+

lemma failure_unlinks:
  "failure w a b c outfile = Inr (r, w') \<Longrightarrow> outfile \<noteq> [] \<Longrightarrow> files w' outfile = None"
  by (auto simp: failure_def Let_def unlink_def close_handle_def split: if_splits)

lemma copy_existing_failed:
  assumes "copy_existing e w1 opened host outfile = Inl (Inr (r, w'))"
  shows "failure w1 Open Open Null outfile = Inr (r, w') \<and> (\<exists>bytes. opened = Opened bytes)"
  using assms
  by (auto simp: copy_existing_def failure_def split: fopen_result.splits prod.splits
      option.splits if_splits)

lemma write_entry_failed:
  assumes "write_entry e w2 out file host fp outfile = Inr (r, w')" and "r \<noteq> 0"
  shows "failure w2 Null Open Null outfile = Inr (r, w') \<or>
    failure (close_handle (w2\<lparr>files := (files w2)(outfile \<mapsto> out @ new_entry host fp)\<rparr>))
      Null Null Null outfile = Inr (r, w')"
  using assms
  by (auto simp: write_entry_def Let_def failure_def split: if_splits)

text \<open>The function after a successful or \<^verbatim>\<open>ENOENT\<close> \<^verbatim>\<open>fopen\<close>.\<close>

lemma update_after_open:
  assumes "fopen_r (in_open_fails e) w file \<noteq> Open_failed"
    and "in_stream = (case fopen_r (in_open_fails e) w file of Opened _ \<Rightarrow> Open | _ \<Rightarrow> Null)"
    and "w0 = (if in_stream = Open then w\<lparr>open_files := Suc (open_files w)\<rparr> else w)"
  shows "update_stored_fingerprint e w file host fp =
    (if length file + length NEO4J_TEMP_FILE_SUFFIX + 1 > path_max e
     then failure w0 in_stream Null Null (outfile_init e)
     else if mkdir_fails e then failure w0 in_stream Null Null (dir_name e)
     else
       (case mkstemp (tmp_suffix e) w0 file of
          None \<Rightarrow> failure w0 in_stream Null Null []
        | Some (outfile, w1) \<Rightarrow>
            if fdopen_fails e then failure w1 in_stream Null Open outfile
            else
              (case copy_existing e w1 (fopen_r (in_open_fails e) w file) host outfile of
                 Inl failed \<Rightarrow> failed
               | Inr (out, w2) \<Rightarrow> write_entry e w2 out file host fp outfile)))"
  using assms
  by (cases "fopen_r (in_open_fails e) w file")
    (auto simp: update_stored_fingerprint_def Let_def split: option.splits)

lemma update_failure_clean:
  assumes upd: "update_stored_fingerprint e w file host fp = Inr (r, w')" and r: "r \<noteq> 0"
  shows "r = - 1 \<and> open_files w' = open_files w \<and>
         (\<forall>p. p \<noteq> outfile_init e \<longrightarrow> p \<noteq> dir_name e \<longrightarrow> files w' p = files w p)"
proof (cases "fopen_r (in_open_fails e) w file = Open_failed")
  case True
  with upd show ?thesis by (simp add: update_stored_fingerprint_def)
next
  case False
  define in_stream where
    "in_stream = (case fopen_r (in_open_fails e) w file of Opened _ \<Rightarrow> Open | _ \<Rightarrow> Null)"
  define w0 where
    "w0 = (if in_stream = Open then w\<lparr>open_files := Suc (open_files w)\<rparr> else w)"
  note eq = update_after_open [OF False in_stream_def w0_def, of host fp]
  have in_cases: "in_stream = Open \<or> in_stream = Null"
    by (simp add: in_stream_def split: fopen_result.splits)
  have files0: "files w0 = files w" by (simp add: w0_def)
  have open0: "open_files w0 = (if in_stream = Open then Suc (open_files w) else open_files w)"
    by (simp add: w0_def)
  have early: ?thesis
    if f: "failure w0 in_stream Null Null outfile = Inr (r, w')"
      and o: "outfile = outfile_init e \<or> outfile = dir_name e \<or> outfile = []" for outfile
  proof -
    from f in_cases have "files w' = (if outfile \<noteq> [] then (files w)(outfile := None) else files w)"
      and "open_files w' = open_files w" and "r = - 1"
      by (auto simp: failure_def Let_def unlink_def close_handle_def files0 open0 w0_def
          split: if_splits)
    with o show ?thesis by auto
  qed
  have late: ?thesis
    if t: "mkstemp (tmp_suffix e) w0 file = Some (outfile, w1)"
      and f: "failure wf a b c outfile = Inr (r, w')"
      and same: "\<forall>p. p \<noteq> outfile \<longrightarrow> files wf p = files w p"
      and n: "open_files wf - (if a = Open then 1 else 0) - (if b = Open then 1 else 0)
           - (if c = Null then 0 else 1) = open_files w"
    for outfile w1 wf a b c
  proof -
    from mkstemp_Some(1) [OF t] have fresh: "files w outfile = None"
      by (simp add: files0 domIff)
    from t have ne: "outfile \<noteq> []"
      by (auto simp: mkstemp_def Let_def split: option.splits if_splits)
    from failure_clean(1) [OF f] have "r = - 1" .
    moreover from failure_clean(3) [OF f] n have "open_files w' = open_files w" by simp
    moreover have "files w' p = files w p" for p
    proof (cases "p = outfile")
      case True
      with failure_unlinks [OF f ne] fresh show ?thesis by simp
    next
      case False
      with failure_clean(2) [OF f, of p] same show ?thesis by simp
    qed
    ultimately show ?thesis by simp
  qed
  show ?thesis
  proof (cases "length file + length NEO4J_TEMP_FILE_SUFFIX + 1 > path_max e \<or> mkdir_fails e")
    case True
    with upd eq have "failure w0 in_stream Null Null (outfile_init e) = Inr (r, w')
        \<or> failure w0 in_stream Null Null (dir_name e) = Inr (r, w')"
      by (auto split: if_splits)
    then show ?thesis using early by blast
  next
    case False
    note no_early = this
    show ?thesis
    proof (cases "mkstemp (tmp_suffix e) w0 file")
      case None
      with upd eq no_early have "failure w0 in_stream Null Null [] = Inr (r, w')" by simp
      then show ?thesis using early by blast
    next
      case (Some pair)
      then obtain outfile w1 where t: "mkstemp (tmp_suffix e) w0 file = Some (outfile, w1)"
        by (cases pair) simp
      note m = mkstemp_Some [OF t]
      have files1: "\<forall>p. p \<noteq> outfile \<longrightarrow> files w1 p = files w p"
        by (simp add: m(3) files0)
      have open1: "open_files w1 = Suc (open_files w0)"
        by (simp add: m(3))
      show ?thesis
      proof (cases "fdopen_fails e")
        case True
        with upd eq no_early t have f: "failure w1 in_stream Null Open outfile = Inr (r, w')"
          by simp
        show ?thesis
          using in_cases by (intro late [OF t f files1]) (auto simp: open1 open0)
      next
        case False
        note fd = this
        show ?thesis
        proof (cases "copy_existing e w1 (fopen_r (in_open_fails e) w file) host outfile")
          case (Inl failed)
          with upd eq no_early t fd have "failed = Inr (r, w')" by simp
          with Inl copy_existing_failed [of e w1 _ host outfile r w']
          obtain bytes where f: "failure w1 Open Open Null outfile = Inr (r, w')"
            and b: "fopen_r (in_open_fails e) w file = Opened bytes"
            by blast
          from b have "in_stream = Open" by (simp add: in_stream_def)
          then show ?thesis
            by (intro late [OF t f files1]) (simp add: open1 open0)
        next
          case (Inr pair)
          then obtain out w2 where
            c: "copy_existing e w1 (fopen_r (in_open_fails e) w file) host outfile = Inr (out, w2)"
            by (cases pair) simp
          with upd eq no_early t fd have we: "write_entry e w2 out file host fp outfile = Inr (r, w')"
            by simp
          from copy_existing_Inr(2) [OF c]
          have w2: "w2 = (case fopen_r (in_open_fails e) w file of
              Opened bytes \<Rightarrow> close_handle w1 | _ \<Rightarrow> w1)" .
          then have files2: "\<forall>p. p \<noteq> outfile \<longrightarrow> files w2 p = files w p"
            using files1 by (simp add: close_handle_def split: fopen_result.splits)
          have open2: "open_files w2 = Suc (open_files w)"
            using w2 open1 open0
            by (auto simp: close_handle_def in_stream_def split: fopen_result.splits)
          from write_entry_failed [OF we r] show ?thesis
          proof
            assume f: "failure w2 Null Open Null outfile = Inr (r, w')"
            show ?thesis
              by (intro late [OF t f files2]) (simp add: open2)
          next
            let ?w3 = "close_handle (w2\<lparr>files := (files w2)(outfile \<mapsto> out @ new_entry host fp)\<rparr>)"
            assume f: "failure ?w3 Null Null Null outfile = Inr (r, w')"
            have files3: "\<forall>p. p \<noteq> outfile \<longrightarrow> files ?w3 p = files w p"
              using files2 by (simp add: close_handle_def)
            show ?thesis
              by (intro late [OF t f files3]) (simp add: open2 close_handle_def)
          qed
        qed
      qed
    qed
  qed
qed

section \<open>Reading a rewritten file\<close>

lemma isspace_NUL: "\<not> isspace NUL"
  by (simp add: isspace_def NUL_def)

lemma entry_matches_iff:
  "entry_matches host l \<longleftrightarrow>
     take (length host) l = host \<and> length host < length l \<and> isspace (l ! length host)"
  by (auto simp: entry_matches_def strncmp_eq_def char_at_def isspace_NUL)

lemma entry_matches_new_entry: "entry_matches host (new_entry host fp)"
  by (simp add: entry_matches_iff new_entry_def nth_append isspace_def)

lemma distinct_keys:
  assumes "entry_matches h2 l" and "entry_matches h1 l" and "h1 \<noteq> h2"
    and "\<forall>c \<in> set h1. \<not> isspace c" and "\<forall>c \<in> set h2. \<not> isspace c"
  shows False
proof -
  from assms(1) have t2: "take (length h2) l = h2" and s2: "isspace (l ! length h2)"
    and l2: "length h2 < length l"
    by (simp_all add: entry_matches_iff)
  from assms(2) have t1: "take (length h1) l = h1" and s1: "isspace (l ! length h1)"
    and l1: "length h1 < length l"
    by (simp_all add: entry_matches_iff)
  consider "length h1 < length h2" | "length h2 < length h1" | "length h1 = length h2"
    by linarith
  then show False
  proof cases
    case 1
    then have "h2 ! length h1 = l ! length h1"
      using t2 by (metis nth_take)
    with s1 1 assms(5) show False by (metis nth_mem)
  next
    case 2
    then have "h1 ! length h2 = l ! length h2"
      using t1 by (metis nth_take)
    with s2 2 assms(4) show False by (metis nth_mem)
  next
    case 3
    with t1 t2 assms(3) show False by simp
  qed
qed

lemma find_entry_skip:
  "\<forall>l \<in> set ls. \<not> entry_matches host (cstr l) \<Longrightarrow> find_entry host (ls @ rest) = find_entry host rest"
  by (induction ls) simp_all

lemma text_file_lines:
  assumes "text_file bytes"
  shows "map cstr (fgets_all bytes) = fgets_all bytes"
    and "\<forall>l \<in> set (fgets_all bytes). whole_line (NEO4J_MAX_KNOWN_HOSTS_LINE_LENGTH - 1) l"
    and "\<forall>l \<in> set (fgets_all bytes). cstr l = l"
proof -
  from assms have "NUL \<notin> set bytes" by (simp add: text_file_def)
  then show id: "\<forall>l \<in> set (fgets_all bytes). cstr l = l"
    by (auto intro: cstr_id dest: fgets_all_no_NUL)
  then show "map cstr (fgets_all bytes) = fgets_all bytes"
    by (simp add: map_idI)
  from assms have "bytes = [] \<or> last bytes = LF" by (simp add: text_file_def)
  then show "\<forall>l \<in> set (fgets_all bytes). whole_line (NEO4J_MAX_KNOWN_HOSTS_LINE_LENGTH - 1) l"
    by (rule fgets_all_whole_lines)
qed

text \<open>After a rewrite of a text file, the loops read the lines kept and then the new entry.\<close>

lemma rewritten_lines:
  assumes "text_file bytes"
  shows "fgets_all (kept_lines host (fgets_all bytes) @ rest) =
           filter (\<lambda>l. \<not> entry_matches host l) (fgets_all bytes) @ fgets_all rest"
proof -
  note tl = text_file_lines [OF assms]
  have "kept_lines host (fgets_all bytes) =
      concat (filter (\<lambda>l. \<not> entry_matches host l) (fgets_all bytes))"
    by (simp add: kept_lines_def tl(1))
  moreover have "\<forall>l \<in> set (filter (\<lambda>l. \<not> entry_matches host l) (fgets_all bytes)).
      whole_line (NEO4J_MAX_KNOWN_HOSTS_LINE_LENGTH - 1) l"
    using tl(2) by simp
  ultimately show ?thesis by (simp add: fgets_all_lines)
qed

lemma rewritten_lines_cstr:
  assumes "text_file bytes"
  shows "map cstr (fgets_all (kept_lines host (fgets_all bytes) @ rest)) =
           filter (\<lambda>l. \<not> entry_matches host l) (fgets_all bytes) @ map cstr (fgets_all rest)"
proof -
  have "map cstr (filter (\<lambda>l. \<not> entry_matches host l) (fgets_all bytes))
      = filter (\<lambda>l. \<not> entry_matches host l) (fgets_all bytes)"
    using text_file_lines(3) [OF assms] by (intro map_idI) simp
  then show ?thesis
    by (simp add: rewritten_lines [OF assms])
qed

lemma new_entry_one_line:
  assumes "LF \<notin> set host" and "LF \<notin> set fp"
    and "length host + length fp + 2 < NEO4J_MAX_KNOWN_HOSTS_LINE_LENGTH"
  shows "fgets_all (new_entry host fp) = [new_entry host fp]"
proof -
  have "whole_line (NEO4J_MAX_KNOWN_HOSTS_LINE_LENGTH - 1) (new_entry host fp)"
    using assms by (simp add: whole_line_def new_entry_def butlast_append isspace_def LF_def)
  from fgets_all_whole [OF this, of "[]"] show ?thesis
    by (simp add: fgets_all_Nil)
qed

lemma rev_dropWhile_rev: "rev (dropWhile P (rev q)) = take (length (dropWhile P (rev q))) q"
proof -
  have "rev q = takeWhile P (rev q) @ dropWhile P (rev q)" by simp
  then have "q = rev (dropWhile P (rev q)) @ rev (takeWhile P (rev q))"
    by (metis rev_append rev_rev_ident)
  then have "take (length (rev (dropWhile P (rev q)))) q = rev (dropWhile P (rev q))"
    by (metis append_eq_conv_conj)
  then show ?thesis by simp
qed

lemma stored_value_new_entry:
  "stored_value host (new_entry host fp) n = take (n - 1) (strip fp)"
proof -
  let ?q = "dropWhile isspace fp"
  have sp: "isspace LF" by (simp add: isspace_def LF_def)
  have drop: "drop (length host + 1) (new_entry host fp) = fp @ [LF]"
    by (simp add: new_entry_def)
  show ?thesis
  proof (cases "?q = []")
    case True
    then have "\<forall>c \<in> set fp. isspace c" by (simp add: dropWhile_eq_Nil_conv)
    then have p: "dropWhile isspace (fp @ [LF]) = []"
      using sp by (simp add: dropWhile_append2)
    have s: "strip fp = []"
      unfolding strip_def True by simp
    show ?thesis
      unfolding stored_value_def drop p s Let_def by simp
  next
    case False
    then obtain c where "c \<in> set fp" and "\<not> isspace c"
      by (auto simp: dropWhile_eq_Nil_conv)
    then have p: "dropWhile isspace (fp @ [LF]) = ?q @ [LF]"
      by (simp add: dropWhile_append1)
    let ?l = "length (dropWhile isspace (rev ?q))"
    have len: "rstrip_len (?q @ [LF]) = ?l"
      using sp by (simp add: rstrip_len_def)
    have le: "?l \<le> length ?q"
      by (metis length_dropWhile_le length_rev)
    have "take (min ?l (n - 1)) (?q @ [LF]) = take (min ?l (n - 1)) ?q"
      using le by simp
    also have "\<dots> = take (n - 1) (take ?l ?q)"
      by (simp add: min.commute)
    also have "take ?l ?q = strip fp"
      by (simp add: strip_def rev_dropWhile_rev [symmetric])
    finally show ?thesis
      by (simp add: stored_value_def drop p len Let_def del: One_nat_def)
  qed
qed

lemma new_entry_cstr: "NUL \<notin> set host \<Longrightarrow> NUL \<notin> set fp \<Longrightarrow> cstr (new_entry host fp) = new_entry host fp"
  by (rule cstr_id) (simp add: new_entry_def NUL_def LF_def)

lemma lookup_after_rewrite:
  assumes new: "files w' file = Some (kept_lines host old_lines @ new_entry host fp)"
    and old: "old_lines = [] \<or> (\<exists>bytes. old_lines = fgets_all bytes \<and> text_file bytes)"
    and host: "NUL \<notin> set host" "LF \<notin> set host"
    and fp: "NUL \<notin> set fp" "LF \<notin> set fp"
    and fits: "length host + length fp + 2 < NEO4J_MAX_KNOWN_HOSTS_LINE_LENGTH"
    and r: "\<not> open_fails r" "read_err_at r = None"
    and n: "0 < n"
  shows "retrieve_stored_fingerprint r w' file host buf n = Inr (0, take (n - 1) (strip fp))"
proof -
  let ?new = "kept_lines host old_lines @ new_entry host fp"
  let ?e = "new_entry host fp"
  have one: "fgets_all ?e = [?e]"
    using host(2) fp(2) fits by (rule new_entry_one_line)
  have "\<exists>ls. fgets_all ?new = ls @ [?e] \<and> (\<forall>l \<in> set ls. \<not> entry_matches host (cstr l))"
    using old
  proof
    assume "old_lines = []"
    then show ?thesis by (simp add: kept_lines_Nil one)
  next
    assume "\<exists>bytes. old_lines = fgets_all bytes \<and> text_file bytes"
    then obtain bytes where b: "old_lines = fgets_all bytes" and t: "text_file bytes"
      by blast
    have "fgets_all ?new = filter (\<lambda>l. \<not> entry_matches host l) (fgets_all bytes) @ [?e]"
      by (simp add: b rewritten_lines [OF t] one)
    moreover have "\<forall>l \<in> set (filter (\<lambda>l. \<not> entry_matches host l) (fgets_all bytes)).
        \<not> entry_matches host (cstr l)"
      using text_file_lines(3) [OF t] by simp
    ultimately show ?thesis by blast
  qed
  then obtain ls where ls: "fgets_all ?new = ls @ [?e]"
    and skip: "\<forall>l \<in> set ls. \<not> entry_matches host (cstr l)"
    by blast
  have "find_entry host (fgets_all ?new) = Some ?e"
    by (simp add: ls find_entry_skip [OF skip] new_entry_cstr [OF host(1) fp(1)]
        entry_matches_new_entry)
  with new r n show ?thesis
    by (simp add: retrieve_stored_fingerprint_def fopen_r_def stream_of_def
        stored_value_new_entry)
qed

lemma update_returns_unless_close_fails:
  assumes "\<not> in_close_fails e" and "\<not> out_close_fails e"
  shows "\<exists>r w'. update_stored_fingerprint e w file host fp = Inr (r, w')"
proof (cases "fopen_r (in_open_fails e) w file = Open_failed")
  case True
  then show ?thesis by (simp add: update_stored_fingerprint_def)
next
  case False
  define in_stream where
    "in_stream = (case fopen_r (in_open_fails e) w file of Opened _ \<Rightarrow> Open | _ \<Rightarrow> Null)"
  define w0 where
    "w0 = (if in_stream = Open then w\<lparr>open_files := Suc (open_files w)\<rparr> else w)"
  note eq = update_after_open [OF False in_stream_def w0_def, of host fp]
  have ins: "in_stream \<noteq> Closed"
    by (simp add: in_stream_def split: fopen_result.splits)
  have f: "\<exists>r w'. failure wf a Null c outfile = Inr (r, w')" if "a \<noteq> Closed"
    for wf a c outfile
    using that by (simp add: failure_def Let_def)
  have we: "\<exists>r w'. write_entry e w2 out file host fp outfile = Inr (r, w')" for w2 out outfile
    using assms(2) by (simp add: write_entry_def failure_def Let_def)
  show ?thesis
  proof (cases "mkstemp (tmp_suffix e) w0 file")
    case None
    with f [OF ins] show ?thesis by (simp add: eq)
  next
    case (Some pair)
    then obtain outfile w1 where t: "mkstemp (tmp_suffix e) w0 file = Some (outfile, w1)"
      by (cases pair) simp
    show ?thesis
    proof (cases "copy_existing e w1 (fopen_r (in_open_fails e) w file) host outfile")
      case (Inl failed)
      with assms(1) have "\<exists>r w'. failed = Inr (r, w')"
        by (auto simp: copy_existing_def failure_def Let_def
            split: fopen_result.splits prod.splits option.splits if_splits)
      with Inl t f [OF ins] show ?thesis by (auto simp: eq)
    next
      case (Inr pair)
      with t f [OF ins] we show ?thesis by (cases pair) (auto simp: eq)
    qed
  qed
qed

text \<open>
  After a successful replace on a text file, with a host and a fingerprint free of NUL
  and newline and an entry that fits one line, exactly one line is keyed by the host:
  the new entry.
\<close>

lemma unique_entry_after_replace:
  assumes ok: "update_stored_fingerprint e w file host fp = Inr (0, w')"
    and old: "case files w file of None \<Rightarrow> True | Some bytes \<Rightarrow> text_file bytes"
    and host: "NUL \<notin> set host" "LF \<notin> set host"
    and fp: "NUL \<notin> set fp" "LF \<notin> set fp"
    and fits: "length host + length fp + 2 < NEO4J_MAX_KNOWN_HOSTS_LINE_LENGTH"
  shows "\<exists>new. files w' file = Some new \<and> lines_keyed host new = [new_entry host fp]"
proof -
  let ?old = "case files w file of None \<Rightarrow> [] | Some bytes \<Rightarrow> fgets_all bytes"
  let ?new = "kept_lines host ?old @ new_entry host fp"
  from update_success(1) [OF ok] have new: "files w' file = Some ?new" by simp
  have one: "fgets_all (new_entry host fp) = [new_entry host fp]"
    using host(2) fp(2) fits by (rule new_entry_one_line)
  have "lines_keyed host ?new = [new_entry host fp]"
  proof (cases "files w file")
    case None
    then show ?thesis
      by (simp add: lines_keyed_def kept_lines_Nil one new_entry_cstr [OF host(1) fp(1)]
          entry_matches_new_entry)
  next
    case (Some bytes)
    with old have t: "text_file bytes" by simp
    show ?thesis
      by (simp add: Some lines_keyed_def rewritten_lines_cstr [OF t] one
          new_entry_cstr [OF host(1) fp(1)] entry_matches_new_entry)
  qed
  with new show ?thesis by blast
qed

lemma replace_fresh:
  "update_stored_fingerprint no_faults fresh_store hosts_path ''db.example:7687'' ''AA:BB''
     = Inr (0, store_with (''db.example:7687 AA:BB'' @ [LF]))"
  by (simp add: store_eval scenario_eval)

lemma replace_pinned:
  "update_stored_fingerprint no_faults
     (store_with (''other:1 ZZ'' @ [LF] @ ''db.example:7687 AA:BB'' @ [LF]))
     hosts_path ''db.example:7687'' ''CC:DD''
   = Inr (0, store_with (''other:1 ZZ'' @ [LF] @ ''db.example:7687 CC:DD'' @ [LF]))"
  by (simp add: store_eval scenario_eval)

lemma replace_first_of_two:
  "update_stored_fingerprint no_faults (store_with two_entries) hosts_path ''a:1'' ''Z''
   = Inr (0, store_with two_entries_replaced)"
  by (simp add: store_eval scenario_eval two_entries_def two_entries_replaced_def)

lemma long_line_lines: "fgets_all long_line_file = [long_line_head, ''h1:1 zz'' @ [LF]]"
proof -
  have "LF \<notin> set long_line_head" and "long_line_head \<noteq> []"
    and "length long_line_head = NEO4J_MAX_KNOWN_HOSTS_LINE_LENGTH - 1"
    by (simp_all add: long_line_head_def NEO4J_MAX_KNOWN_HOSTS_LINE_LENGTH_def LF_def)
  then have "whole_line (NEO4J_MAX_KNOWN_HOSTS_LINE_LENGTH - 1) long_line_head"
    by (auto simp: whole_line_def dest: in_set_butlastD)
  then have "fgets_all (long_line_head @ ''h1:1 zz'' @ [LF])
      = long_line_head # fgets_all (''h1:1 zz'' @ [LF])"
    by (rule fgets_all_whole)
  also have "fgets_all (''h1:1 zz'' @ [LF]) = [''h1:1 zz'' @ [LF]]"
    by (simp add: fgets_all.simps read_line_Nil read_line_Cons LF_def
        NEO4J_MAX_KNOWN_HOSTS_LINE_LENGTH_def)
  finally show ?thesis by (simp only: long_line_file_def)
qed

text \<open>The lookup returns what the first line keyed by the host stores, cut to the buffer.\<close>

lemma stored_value_truncates:
  "stored_value host line n = take (n - 1) (stored_fingerprint host line)"
  by (simp add: stored_value_def stored_fingerprint_def Let_def min.commute del: One_nat_def)

lemma lookup_finds_first_entry:
  assumes "\<not> open_fails r" and "read_err_at r = None"
    and "files w file = Some bytes"
    and "find_entry host (fgets_all bytes) = Some line"
    and "0 < n"
  shows "retrieve_stored_fingerprint r w file host buf n
           = Inr (0, take (n - 1) (stored_fingerprint host line))"
  using assms
  by (simp add: retrieve_stored_fingerprint_def fopen_r_def stream_of_def
      stored_value_truncates del: One_nat_def)

text \<open>The lookup reports a host as absent when no file or no line keyed by it exists.\<close>

lemma lookup_finds_nothing:
  assumes "\<not> open_fails r" and "read_err_at r = None"
    and "case files w file of None \<Rightarrow> True
         | Some bytes \<Rightarrow> find_entry host (fgets_all bytes) = None"
  shows "retrieve_stored_fingerprint r w file host buf n = Inr (1, buf)"
  using assms
  by (auto simp: retrieve_stored_fingerprint_def fopen_r_def stream_of_def
      split: option.splits)

text \<open>
  The decision after the callback has been called: with \<open>TRUST\<close> the call replaces the
  entry of the host label by the presented fingerprint and returns \<open>0\<close> when
  \<open>update_stored_fingerprint\<close> returns \<open>0\<close>, and \<open>-1\<close> when it returns anything else;
  after a successful replace the known-hosts file holds the lines of the old file that do
  not match the host label, followed by the new entry. With \<open>ACCEPT_ONCE\<close> the call
  returns \<open>0\<close> and the world is unchanged. With any other value it returns \<open>1\<close>. In each
  case the callback has been called exactly once. Scenario S2 follows.
\<close>

lemma callback_dispatch:
  assumes "length hostname < 256" and "hostname \<noteq> []" and "NUL \<notin> set hostname"
    and "known_hosts_path env config = Some file"
    and "unverified_host_callback config = Some cb"
    and "retrieve_stored_fingerprint (lookup_env env) w file (host_label hostname port)
           (existing_init env) NEO4J_MAX_FINGERPRINT_LENGTH = Inr (result, existing)"
    and "result > 0 \<or> fingerprint \<noteq> existing"
    and "reason = (if result = 0 then NEO4J_HOST_VERIFICATION_MISMATCH
                   else NEO4J_HOST_VERIFICATION_UNRECOGNIZED)"
    and "action = cb (unverified_host_callback_userdata config) (host_label hostname port)
                    fingerprint reason"
    and "calls = [(unverified_host_callback_userdata config, host_label hostname port,
                   fingerprint, reason)]"
    and "replaced = update_stored_fingerprint (replace_env env) w file
                      (host_label hostname port) fingerprint"
  shows "neo4j_check_known_hosts env config w hostname port fingerprint flags =
           (if action = NEO4J_HOST_VERIFICATION_TRUST then
              (case replaced of
                 Inl f \<Rightarrow> Inl f
               | Inr (r, w') \<Rightarrow> if r = 0 then Inr (0, w', calls) else Inr (- 1, w', calls))
            else if action = NEO4J_HOST_VERIFICATION_ACCEPT_ONCE then Inr (0, w, calls)
            else Inr (1, w, calls))
         \<and> (\<forall>w'. replaced = Inr (0, w') \<longrightarrow>
               files w' = (files w)(file \<mapsto>
                 kept_lines (host_label hostname port)
                   (case files w file of None \<Rightarrow> [] | Some bytes \<Rightarrow> fgets_all bytes)
                 @ new_entry (host_label hostname port) fingerprint))"
proof
  show "neo4j_check_known_hosts env config w hostname port fingerprint flags =
           (if action = NEO4J_HOST_VERIFICATION_TRUST then
              (case replaced of
                 Inl f \<Rightarrow> Inl f
               | Inr (r, w') \<Rightarrow> if r = 0 then Inr (0, w', calls) else Inr (- 1, w', calls))
            else if action = NEO4J_HOST_VERIFICATION_ACCEPT_ONCE then Inr (0, w, calls)
            else Inr (1, w, calls))"
    using assms(5-11)
    by (auto simp: check_known_hosts_valid [OF assms(1-4)] Let_def split: sum.splits)
  show "\<forall>w'. replaced = Inr (0, w') \<longrightarrow>
               files w' = (files w)(file \<mapsto>
                 kept_lines (host_label hostname port)
                   (case files w file of None \<Rightarrow> [] | Some bytes \<Rightarrow> fgets_all bytes)
                 @ new_entry (host_label hostname port) fingerprint)"
    unfolding assms(11) by (intro allI impI) (rule update_success(1))
qed

lemma trust_on_first_use:
  "neo4j_check_known_hosts calm (config_of (Some trusting)) fresh_store
     ''db.example'' 7687 ''AA:BB'' 0
   = Inr (0, store_with (''db.example:7687 AA:BB'' @ [LF]),
          [(0, ''db.example:7687'', ''AA:BB'', NEO4J_HOST_VERIFICATION_UNRECOGNIZED)])"
proof -
  have cb: "unverified_host_callback (config_of (Some trusting)) = Some trusting"
    by (simp add: config_of_def)
  have lookup: "retrieve_stored_fingerprint (lookup_env calm) fresh_store hosts_path
      (host_label ''db.example'' 7687) (existing_init calm) NEO4J_MAX_FINGERPRINT_LENGTH
      = Inr (1, [])"
    by (simp add: example_label) (simp add: store_eval scenario_eval)
  have invoked: "(1::int) > 0 \<or> ''AA:BB'' \<noteq> []" by simp
  have replaced: "update_stored_fingerprint (replace_env calm) fresh_store hosts_path
      ''db.example:7687'' ''AA:BB'' = Inr (0, store_with (''db.example:7687 AA:BB'' @ [LF]))"
    by (simp add: calm_def replace_fresh)
  from callback_dispatch [OF example_hostname example_path cb lookup invoked
      refl refl refl refl, of 0]
  show ?thesis
    by (simp add: replaced trusting_def example_label config_of_def)
qed

section \<open>The host verifier: claims\<close>

text \<open>
  Claim C10. The host name precondition is enforced at the public interface: for every
  host name that is empty or 256 bytes or longer, \<open>neo4j_check_known_hosts\<close> returns
  \<open>-1\<close> at once. The result is the same whatever the environment and the store hold,
  the world is returned as it was, and the callback is not called.
\<close>

theorem hostname_precondition_enforced:
  assumes "hostname = [] \<or> 256 \<le> length hostname"
  shows "neo4j_check_known_hosts env config w hostname port fingerprint flags
           = Inr (- 1, w, [])"
  using assms by (auto simp: neo4j_check_known_hosts_def REQUIRE_def char_at_def)

theorem hostname_precondition_enforced_witness:
  "neo4j_check_known_hosts calm (config_of None) (store_with ''db.example:7687 AA:BB'')
     [] 7687 ''AA:BB'' 0 = Inr (- 1, store_with ''db.example:7687 AA:BB'', [])
   \<and> neo4j_check_known_hosts calm (config_of None) fresh_store
     (replicate 256 CHR ''a'') 7687 ''AA:BB'' 0 = Inr (- 1, fresh_store, [])"
  using hostname_precondition_enforced [of "[]" calm "config_of None"
      "store_with ''db.example:7687 AA:BB''" 7687 "''AA:BB''" 0]
    hostname_precondition_enforced [of "replicate 256 CHR ''a''" calm "config_of None"
      fresh_store 7687 "''AA:BB''" 0]
  by simp

text \<open>
  Claim C8, amended. When the known-hosts file is absent, or is read without a failure
  and holds no line keyed by the host label (unrecognized), or the fingerprint that its
  first line keyed by the host label stores, cut to the 59 bytes that fit the buffer
  \<open>existing\<close>, differs from the presented fingerprint (mismatched), and no callback is
  installed, \<open>neo4j_check_known_hosts\<close> returns \<open>1\<close>, and the world, so also the
  known-hosts file, is as before: nothing is created or modified.
\<close>

theorem unverified_without_callback_rejected:
  assumes "length hostname < 256" and "hostname \<noteq> []" and "NUL \<notin> set hostname"
    and "known_hosts_path env config = Some file"
    and "\<not> open_fails (lookup_env env)" and "read_err_at (lookup_env env) = None"
    and "case files w file of
           None \<Rightarrow> True
         | Some bytes \<Rightarrow>
             (case find_entry (host_label hostname port) (fgets_all bytes) of
                None \<Rightarrow> True
              | Some line \<Rightarrow>
                  take (NEO4J_MAX_FINGERPRINT_LENGTH - 1)
                    (stored_fingerprint (host_label hostname port) line) \<noteq> fingerprint)"
    and "unverified_host_callback config = None"
  shows "neo4j_check_known_hosts env config w hostname port fingerprint flags
           = Inr (1, w, [])"
proof -
  let ?host = "host_label hostname port"
  let ?lookup = "retrieve_stored_fingerprint (lookup_env env) w file ?host
      (existing_init env) NEO4J_MAX_FINGERPRINT_LENGTH"
  have n: "0 < NEO4J_MAX_FINGERPRINT_LENGTH"
    by (simp add: NEO4J_MAX_FINGERPRINT_LENGTH_def)
  have "?lookup = Inr (1, existing_init env)
      \<or> (\<exists>existing. ?lookup = Inr (0, existing) \<and> existing \<noteq> fingerprint)"
  proof (cases "files w file")
    case None
    have "?lookup = Inr (1, existing_init env)"
      by (rule lookup_finds_nothing [OF assms(5,6)]) (simp add: None)
    then show ?thesis by simp
  next
    case (Some bytes)
    show ?thesis
    proof (cases "find_entry ?host (fgets_all bytes)")
      case None
      have "?lookup = Inr (1, existing_init env)"
        by (rule lookup_finds_nothing [OF assms(5,6)]) (simp add: Some None)
      then show ?thesis by simp
    next
      case (Some line)
      from assms(7) \<open>files w file = Some bytes\<close> Some
      have "take (NEO4J_MAX_FINGERPRINT_LENGTH - 1) (stored_fingerprint ?host line)
          \<noteq> fingerprint"
        by simp
      with lookup_finds_first_entry [OF assms(5,6) \<open>files w file = Some bytes\<close> Some n]
      show ?thesis by simp
    qed
  qed
  with assms(8) show ?thesis
    by (auto simp: check_known_hosts_valid [OF assms(1-4)])
qed

theorem unverified_without_callback_rejected_witness:
  "neo4j_check_known_hosts calm (config_of None) fresh_store ''db.example'' 7687 ''AA:BB'' 0
     = Inr (1, fresh_store, [])
   \<and> files fresh_store hosts_path = None
   \<and> neo4j_check_known_hosts calm (config_of None) (store_with pinned)
       ''db.example'' 7687 ''CC:DD'' 0
     = Inr (1, store_with pinned, [])"
proof -
  have r: "\<not> open_fails (lookup_env calm)" "read_err_at (lookup_env calm) = None"
    by (simp_all add: calm_def no_read_faults_def)
  have none: "unverified_host_callback (config_of None) = None"
    by (simp add: config_of_def)
  have absent: "case files fresh_store hosts_path of
           None \<Rightarrow> True
         | Some bytes \<Rightarrow>
             (case find_entry (host_label ''db.example'' 7687) (fgets_all bytes) of
                None \<Rightarrow> True
              | Some line \<Rightarrow>
                  take (NEO4J_MAX_FINGERPRINT_LENGTH - 1)
                    (stored_fingerprint (host_label ''db.example'' 7687) line) \<noteq> ''AA:BB'')"
    by (simp add: fresh_store_def)
  have entry: "find_entry ''db.example:7687'' (fgets_all pinned) = Some pinned"
    by (simp add: pinned_def store_eval)
  have fp: "stored_fingerprint ''db.example:7687'' pinned = ''AA:BB''"
    by (simp add: pinned_def stored_fingerprint_def rstrip_len_def isspace_def LF_def)
  have mismatch: "case files (store_with pinned) hosts_path of
           None \<Rightarrow> True
         | Some bytes \<Rightarrow>
             (case find_entry (host_label ''db.example'' 7687) (fgets_all bytes) of
                None \<Rightarrow> True
              | Some line \<Rightarrow>
                  take (NEO4J_MAX_FINGERPRINT_LENGTH - 1)
                    (stored_fingerprint (host_label ''db.example'' 7687) line) \<noteq> ''CC:DD'')"
    by (simp add: store_with_def example_label entry fp NEO4J_MAX_FINGERPRINT_LENGTH_def)
  show ?thesis
    using unverified_without_callback_rejected
        [OF example_hostname example_path r absent none, of 0]
      unverified_without_callback_rejected
        [OF example_hostname example_path r mismatch none, of 0]
    by (simp add: fresh_store_def)
qed

text \<open>
  Claim C8 as stated, for every stored fingerprint that differs from the presented one,
  fails: the comparison sees only the first 59 bytes of what is stored. When the store
  holds a digest of 64 characters for the host and its first 59 characters are
  presented, with no callback installed, the call returns \<open>0\<close>.
\<close>

theorem unverified_without_callback_rejected_counterexample:
  "find_entry ''db.example:7687'' (fgets_all pinned_digest) = Some pinned_digest
   \<and> stored_fingerprint ''db.example:7687'' pinned_digest = sha256_hex
   \<and> sha256_hex \<noteq> sha256_hex_prefix
   \<and> neo4j_check_known_hosts calm (config_of None) (store_with pinned_digest)
       ''db.example'' 7687 sha256_hex_prefix 0
     = Inr (0, store_with pinned_digest, [])"
  by (simp add: store_eval scenario_eval check_eval pinned_digest_def sha256_hex_def
      sha256_hex_prefix_def stored_fingerprint_def)

text \<open>
  Claim C6, amended. When the known-hosts file exists and is read without a failure, and
  the first of its lines keyed by the host label stores a fingerprint that is shorter
  than \<open>NEO4J_MAX_FINGERPRINT_LENGTH\<close> (60 bytes) and equals the presented fingerprint,
  \<open>neo4j_check_known_hosts\<close> returns \<open>0\<close>, the callback is not called and the world is
  as before.
\<close>

theorem stored_fingerprint_verified:
  assumes "length hostname < 256" and "hostname \<noteq> []" and "NUL \<notin> set hostname"
    and "known_hosts_path env config = Some file"
    and "\<not> open_fails (lookup_env env)" and "read_err_at (lookup_env env) = None"
    and "files w file = Some bytes"
    and "find_entry (host_label hostname port) (fgets_all bytes) = Some line"
    and "stored_fingerprint (host_label hostname port) line = fingerprint"
    and "length fingerprint < NEO4J_MAX_FINGERPRINT_LENGTH"
  shows "neo4j_check_known_hosts env config w hostname port fingerprint flags
           = Inr (0, w, [])"
proof -
  have n: "0 < NEO4J_MAX_FINGERPRINT_LENGTH"
    by (simp add: NEO4J_MAX_FINGERPRINT_LENGTH_def)
  from lookup_finds_first_entry [OF assms(5-8) n, of "existing_init env"] assms(9,10)
  have "retrieve_stored_fingerprint (lookup_env env) w file (host_label hostname port)
      (existing_init env) NEO4J_MAX_FINGERPRINT_LENGTH = Inr (0, fingerprint)"
    by simp
  then show ?thesis
    by (simp add: check_known_hosts_valid [OF assms(1-4)])
qed

theorem stored_fingerprint_verified_witness:
  "neo4j_check_known_hosts calm (config_of (Some (\<lambda>u h f r. NEO4J_HOST_VERIFICATION_REJECT)))
     (store_with pinned) ''db.example'' 7687 ''AA:BB'' 0
     = Inr (0, store_with pinned, [])"
proof -
  have r: "\<not> open_fails (lookup_env calm)" "read_err_at (lookup_env calm) = None"
    by (simp_all add: calm_def no_read_faults_def)
  have stored: "files (store_with pinned) hosts_path = Some pinned"
    by (simp add: store_with_def)
  have entry: "find_entry (host_label ''db.example'' 7687) (fgets_all pinned) = Some pinned"
    by (simp add: example_label) (simp add: pinned_def store_eval)
  have fp: "stored_fingerprint (host_label ''db.example'' 7687) pinned = ''AA:BB''"
    by (simp add: example_label)
      (simp add: pinned_def stored_fingerprint_def rstrip_len_def isspace_def LF_def)
  have short: "length ''AA:BB'' < NEO4J_MAX_FINGERPRINT_LENGTH"
    by (simp add: NEO4J_MAX_FINGERPRINT_LENGTH_def)
  show ?thesis
    using stored_fingerprint_verified [OF example_hostname example_path r stored entry fp short] .
qed

text \<open>
  Claim C6 as stated, for every stored fingerprint, fails: the lookup cuts what it finds
  to the 59 bytes that fit the buffer \<open>existing\<close>. When the store holds a digest of 64
  characters for the host and the same digest is presented, the comparison fails: the
  call returns \<open>1\<close>, and an installed callback is called with the reason \<open>MISMATCH\<close>.
\<close>

theorem stored_fingerprint_verified_counterexample:
  "find_entry ''db.example:7687'' (fgets_all pinned_digest) = Some pinned_digest
   \<and> stored_fingerprint ''db.example:7687'' pinned_digest = sha256_hex
   \<and> neo4j_check_known_hosts calm (config_of None) (store_with pinned_digest)
       ''db.example'' 7687 sha256_hex 0
     = Inr (1, store_with pinned_digest, [])
   \<and> neo4j_check_known_hosts calm (config_of (Some rejecting)) (store_with pinned_digest)
       ''db.example'' 7687 sha256_hex 0
     = Inr (1, store_with pinned_digest,
            [(0, ''db.example:7687'', sha256_hex, NEO4J_HOST_VERIFICATION_MISMATCH)])"
  by (simp add: store_eval scenario_eval check_eval pinned_digest_def sha256_hex_def
      stored_fingerprint_def rejecting_def)

text \<open>
  Claim C7 says that the return value of the callback decides the outcome: \<open>TRUST\<close>
  persists the fingerprint and returns \<open>0\<close>, or \<open>-1\<close> when persisting fails;
  \<open>ACCEPT_ONCE\<close> returns \<open>0\<close> with the file unchanged; any other value returns \<open>1\<close>.
  Whenever \<open>update_stored_fingerprint\<close> returns, this is what the call does
  (\<open>callback_dispatch\<close>). When persisting fails because \<^verbatim>\<open>fclose\<close> reports an error,
  the replace closes the stream a second time and does not return \<open>-1\<close>, and neither does
  the call: its behaviour is undefined.
\<close>

theorem trust_with_failing_close:
  "neo4j_check_known_hosts (calm\<lparr>replace_env := no_faults\<lparr>out_close_fails := True\<rparr>\<rparr>)
     (config_of (Some trusting)) fresh_store ''db.example'' 7687 ''AA:BB'' 0
   = Inl Double_fclose"
  by (simp add: store_eval scenario_eval check_eval trusting_def)

text \<open>
  Claim C1 says that a lookup that fails with an I/O or read error makes the call return
  \<open>-1\<close> without reaching the decision or the callback. The code does not do this: it
  only tests \<open>result > 0\<close> and then compares the fingerprint with the buffer
  \<open>existing\<close>, which the failed lookup has not written. With a known-hosts file that
  cannot be opened and no callback the call returns \<open>1\<close>; with a read error and a
  callback that answers \<open>ACCEPT_ONCE\<close> the callback is called with the reason
  \<open>UNRECOGNIZED\<close> and the call returns \<open>0\<close>.
\<close>

theorem lookup_error_reaches_decision:
  "retrieve_stored_fingerprint unreadable (store_with pinned) hosts_path ''db.example:7687'' []
     NEO4J_MAX_FINGERPRINT_LENGTH = Inr (- 1, [])
   \<and> neo4j_check_known_hosts (calm\<lparr>lookup_env := unreadable\<rparr>) (config_of None)
       (store_with pinned) ''db.example'' 7687 ''AA:BB'' 0
     = Inr (1, store_with pinned, [])
   \<and> retrieve_stored_fingerprint failing_read (store_with pinned) hosts_path
       ''db.example:7687'' [] NEO4J_MAX_FINGERPRINT_LENGTH = Inr (- 1, [])
   \<and> neo4j_check_known_hosts (calm\<lparr>lookup_env := failing_read\<rparr>)
       (config_of (Some accepting_once)) (store_with pinned) ''db.example'' 7687 ''AA:BB'' 0
     = Inr (0, store_with pinned,
            [(0, ''db.example:7687'', ''AA:BB'', NEO4J_HOST_VERIFICATION_UNRECOGNIZED)])"
  by (simp add: store_eval scenario_eval check_eval pinned_def unreadable_def failing_read_def
      accepting_once_def)

section \<open>The fingerprint store: claims\<close>

text \<open>
  Claim C2, amended. A successful replace of the entry of \<open>host\<close> by \<open>fp\<close>, on a
  known-hosts file that is absent or a text file (no NUL byte, every line ended by a
  newline), where host and fingerprint hold no NUL and no newline and the entry fits one
  line of the reading loop, followed by a lookup of \<open>host\<close> in which no read fails, into
  a buffer of \<open>n > 0\<close> bytes, returns \<open>0\<close> and the fingerprint without its leading and
  trailing whitespace, cut to \<open>n - 1\<close> bytes.
\<close>

theorem replace_then_lookup:
  assumes ok: "update_stored_fingerprint e w file host fp = Inr (0, w')"
    and old: "case files w file of None \<Rightarrow> True | Some bytes \<Rightarrow> text_file bytes"
    and host: "NUL \<notin> set host" "LF \<notin> set host"
    and fp: "NUL \<notin> set fp" "LF \<notin> set fp"
    and fits: "length host + length fp + 2 < NEO4J_MAX_KNOWN_HOSTS_LINE_LENGTH"
    and r: "\<not> open_fails r" "read_err_at r = None"
    and n: "0 < n"
  shows "retrieve_stored_fingerprint r w' file host buf n = Inr (0, take (n - 1) (strip fp))"
proof -
  let ?old = "case files w file of None \<Rightarrow> [] | Some bytes \<Rightarrow> fgets_all bytes"
  from update_success(1) [OF ok]
  have new: "files w' file = Some (kept_lines host ?old @ new_entry host fp)"
    by simp
  from old have "?old = [] \<or> (\<exists>bytes. ?old = fgets_all bytes \<and> text_file bytes)"
    by (auto split: option.splits)
  from lookup_after_rewrite [OF new this host fp fits r n] show ?thesis .
qed

theorem replace_then_lookup_witness:
  "retrieve_stored_fingerprint no_read_faults
     (store_with (''other:1 ZZ'' @ [LF] @ ''db.example:7687 CC:DD'' @ [LF]))
     hosts_path ''db.example:7687'' [] NEO4J_MAX_FINGERPRINT_LENGTH = Inr (0, ''CC:DD'')"
proof -
  have old: "case files (store_with (''other:1 ZZ'' @ [LF] @ ''db.example:7687 AA:BB'' @ [LF]))
      hosts_path of None \<Rightarrow> True | Some bytes \<Rightarrow> text_file bytes"
    by (simp add: store_with_def text_file_def NUL_def LF_def)
  have host: "NUL \<notin> set ''db.example:7687''" "LF \<notin> set ''db.example:7687''"
    by (simp_all add: NUL_def LF_def)
  have fp: "NUL \<notin> set ''CC:DD''" "LF \<notin> set ''CC:DD''"
    by (simp_all add: NUL_def LF_def)
  have fits: "length ''db.example:7687'' + length ''CC:DD'' + 2 < NEO4J_MAX_KNOWN_HOSTS_LINE_LENGTH"
    by (simp add: NEO4J_MAX_KNOWN_HOSTS_LINE_LENGTH_def)
  have r: "\<not> open_fails no_read_faults" "read_err_at no_read_faults = None"
    by (simp_all add: no_read_faults_def)
  have n: "0 < NEO4J_MAX_FINGERPRINT_LENGTH"
    by (simp add: NEO4J_MAX_FINGERPRINT_LENGTH_def)
  from replace_then_lookup [OF replace_pinned old host fp fits r n, of "[]"]
  show ?thesis
    by (simp add: strip_def isspace_def NEO4J_MAX_FINGERPRINT_LENGTH_def)
qed

text \<open>
  Claim C2 as stated, for every fingerprint length, fails: after the replace of a fresh
  store with a digest of 64 characters, the lookup into the 60-byte buffer of the
  verifier returns its first 59 characters.
\<close>

theorem replace_then_lookup_counterexample:
  "update_stored_fingerprint no_faults fresh_store hosts_path ''db.example:7687'' sha256_hex
     = Inr (0, store_with (''db.example:7687 '' @ sha256_hex @ [LF]))
   \<and> retrieve_stored_fingerprint no_read_faults
         (store_with (''db.example:7687 '' @ sha256_hex @ [LF]))
         hosts_path ''db.example:7687'' [] NEO4J_MAX_FINGERPRINT_LENGTH
       = Inr (0, ''3a7bd3e2360a3d29eea436fcfb7e44c735d117c42d1c1835420b6b9942d'')
   \<and> ''3a7bd3e2360a3d29eea436fcfb7e44c735d117c42d1c1835420b6b9942d'' \<noteq> sha256_hex"
  by (simp add: store_eval scenario_eval sha256_hex_def)

text \<open>
  Claim C3 says that a replace that fails at any step after opening deletes the temporary
  file, closes every handle, leaves the known-hosts file as it was and returns \<open>-1\<close>.
  This holds for every failure that returns (\<open>update_failure_clean\<close>), and the function
  returns unless a call of \<^verbatim>\<open>fclose\<close> reports an error
  (\<open>update_returns_unless_close_fails\<close>). When \<^verbatim>\<open>fclose(out_stream)\<close> or
  \<^verbatim>\<open>fclose(in_stream)\<close> reports an error, the jump to \<^verbatim>\<open>failure\<close> is taken with
  the pointer still set, and \<^verbatim>\<open>fclose\<close> is called a second time on a stream that is
  already closed: the behaviour is undefined.
\<close>

theorem replace_close_failure_closes_twice:
  "update_stored_fingerprint (no_faults\<lparr>out_close_fails := True\<rparr>) (store_with pinned)
     hosts_path ''db.example:7687'' ''CC:DD'' = Inl Double_fclose
   \<and> update_stored_fingerprint (no_faults\<lparr>in_close_fails := True\<rparr>) (store_with pinned)
     hosts_path ''db.example:7687'' ''CC:DD'' = Inl Double_fclose"
  by (simp add: store_eval scenario_eval pinned_def)

text \<open>
  Claim C4 says that after any successful replace exactly one line is keyed by the host.
  For a text file this holds (\<open>unique_entry_after_replace\<close>). When the last line of the
  file does not end with a newline, the new entry is appended to that line: no line is
  keyed by the host, a lookup of the host reports it absent, and the entry of the last
  line's host is changed.
\<close>

theorem replace_after_unterminated_line:
  "update_stored_fingerprint no_faults (store_with ''a:1 X'') hosts_path ''b:2'' ''Y''
     = Inr (0, store_with (''a:1 Xb:2 Y'' @ [LF]))
   \<and> lines_keyed ''b:2'' (''a:1 Xb:2 Y'' @ [LF]) = []
   \<and> retrieve_stored_fingerprint no_read_faults (store_with (''a:1 Xb:2 Y'' @ [LF]))
       hosts_path ''b:2'' [] NEO4J_MAX_FINGERPRINT_LENGTH = Inr (1, [])
   \<and> retrieve_stored_fingerprint no_read_faults (store_with (''a:1 Xb:2 Y'' @ [LF]))
       hosts_path ''a:1'' [] NEO4J_MAX_FINGERPRINT_LENGTH = Inr (0, ''Xb:2 Y'')"
  by (simp add: store_eval scenario_eval lines_keyed_def)

text \<open>
  Claim C5, amended. After a successful replace for \<open>host1\<close> on a text file, for a host
  label \<open>host2\<close> other than \<open>host1\<close>, both without whitespace, the lines keyed by \<open>host2\<close>
  are those of the old file, unchanged and in the same order, followed by the lines
  keyed by \<open>host2\<close> that the new entry itself contributes. A line here is what one
  \<^verbatim>\<open>fgets\<close> returns: a line of up to 1023 bytes with its newline, or a piece of 1023
  bytes of a longer line.
\<close>

theorem replace_keeps_other_hosts:
  assumes ok: "update_stored_fingerprint e w file host1 fp1 = Inr (0, w')"
    and old: "files w file = Some old" "text_file old"
    and keys: "host1 \<noteq> host2" "\<forall>c \<in> set host1. \<not> isspace c" "\<forall>c \<in> set host2. \<not> isspace c"
  shows "\<exists>new. files w' file = Some new \<and>
           lines_keyed host2 new = lines_keyed host2 old @ lines_keyed host2 (new_entry host1 fp1)"
proof -
  let ?new = "kept_lines host1 (fgets_all old) @ new_entry host1 fp1"
  from update_success(1) [OF ok] old(1) have new: "files w' file = Some ?new"
    by simp
  have other: "entry_matches host2 l \<Longrightarrow> \<not> entry_matches host1 l" for l
    using distinct_keys [of host2 l host1] keys by blast
  have "filter (entry_matches host2) (filter (\<lambda>l. \<not> entry_matches host1 l) (fgets_all old))
      = filter (entry_matches host2) (fgets_all old)"
    using other by (auto intro: filter_cong)
  then have "lines_keyed host2 ?new
      = lines_keyed host2 old @ lines_keyed host2 (new_entry host1 fp1)"
    by (simp add: lines_keyed_def rewritten_lines_cstr [OF old(2)]
        text_file_lines(1) [OF old(2)])
  with new show ?thesis by blast
qed

theorem replace_keeps_other_hosts_witness:
  "lines_keyed ''b:2'' two_entries_replaced = [''b:2 Y'' @ [LF]]
   \<and> lines_keyed ''b:2'' two_entries = [''b:2 Y'' @ [LF]]"
proof -
  have old: "files (store_with two_entries) hosts_path = Some two_entries"
    "text_file two_entries"
    by (simp_all add: store_with_def text_file_def two_entries_def NUL_def LF_def)
  have keys: "''a:1'' \<noteq> ''b:2''" "\<forall>c \<in> set ''a:1''. \<not> isspace c"
    "\<forall>c \<in> set ''b:2''. \<not> isspace c"
    by (simp_all add: isspace_def)
  have before: "lines_keyed ''b:2'' two_entries = [''b:2 Y'' @ [LF]]"
    by (simp add: lines_keyed_def store_eval two_entries_def)
  have entry: "lines_keyed ''b:2'' (new_entry ''a:1'' ''Z'') = []"
    by (simp add: lines_keyed_def store_eval)
  from replace_keeps_other_hosts [OF replace_first_of_two old keys]
  obtain new where new: "files (store_with two_entries_replaced) hosts_path = Some new"
    and kept: "lines_keyed ''b:2'' new
      = lines_keyed ''b:2'' two_entries @ lines_keyed ''b:2'' (new_entry ''a:1'' ''Z'')"
    by blast
  from new have "new = two_entries_replaced"
    by (simp add: store_with_def)
  with kept before entry show ?thesis by simp
qed

text \<open>
  Claim C5 as stated, for lines longer than the line limit, fails: a line of 1031 bytes
  keyed by \<open>h2:1\<close> whose bytes after the first 1023 start with \<open>h1:1\<close> and a space loses
  these bytes in a replace for \<open>h1:1\<close>, and the new entry is appended to what is left of
  the line.
\<close>

theorem replace_keeps_other_hosts_counterexample:
  "LF \<notin> set (butlast long_line_file) \<and> last long_line_file = LF
   \<and> entry_matches ''h2:1'' long_line_file
   \<and> update_stored_fingerprint no_faults (store_with long_line_file) hosts_path ''h1:1'' ''X''
     = Inr (0, store_with long_line_replaced)
   \<and> long_line_replaced \<noteq> long_line_file"
proof -
  have one: "LF \<notin> set (butlast long_line_file)" "last long_line_file = LF"
    by (simp_all add: long_line_file_def long_line_head_def LF_def butlast_append)
  have keyed: "entry_matches ''h2:1'' long_line_file"
    by (simp add: entry_matches_iff long_line_file_def long_line_head_def isspace_def)
  have head: "cstr long_line_head = long_line_head"
    by (rule cstr_id) (simp add: long_line_head_def NUL_def)
  have kept: "\<not> entry_matches ''h1:1'' long_line_head"
    by (simp add: entry_matches_iff long_line_head_def)
  have dropped: "entry_matches ''h1:1'' (cstr (''h1:1 zz'' @ [LF]))"
    by (simp add: cstr_def NUL_def LF_def entry_matches_iff isspace_def)
  have copied: "copy_lines ''h1:1'' None 0 (fgets_all long_line_file) [] = Some long_line_head"
    using dropped by (simp add: long_line_lines head kept)
  have replaced: "update_stored_fingerprint no_faults (store_with long_line_file) hosts_path
      ''h1:1'' ''X'' = Inr (0, store_with long_line_replaced)"
    by (simp add: update_stored_fingerprint_def copy_existing_def write_entry_def fopen_r_def
        mkstemp_def rename_def close_handle_def stream_of_def new_entry_def
        NEO4J_TEMP_FILE_SUFFIX_def no_faults_def store_with_def hosts_path_def Let_def copied
        long_line_replaced_def)
  have changed: "long_line_replaced \<noteq> long_line_file"
    by (simp add: long_line_replaced_def long_line_file_def)
  from one keyed replaced changed show ?thesis by simp
qed

section \<open>Records: claims\<close>

text \<open>
  Claim C9. For every record and every index at or beyond the number of fields,
  \<open>field\<close> returns the null value; for an index in range it returns the value at that
  index.
\<close>

theorem field_out_of_range_is_null:
  "(nfields vals \<le> unat index \<longrightarrow> field (record_result vals) index = neo4j_null)
   \<and> (unat index < nfields vals \<longrightarrow> field (record_result vals) index = vals ! unat index)"
  by (simp add: record_result_def record_field_def nfields_def)

theorem field_out_of_range_is_null_witness:
  "field (record_result [Int_value 1, String_value ''a'']) 2 = neo4j_null
   \<and> field (record_result [Int_value 1, String_value ''a'']) 1 = String_value ''a''
   \<and> nfields [Int_value 1, String_value ''a''] = 2"
  using field_out_of_range_is_null [of "[Int_value 1, String_value ''a'']" 2]
    field_out_of_range_is_null [of "[Int_value 1, String_value ''a'']" 1]
  by (simp add: nfields_def)

end
